theory Spec2Isabelle
  imports Main "HOL-Library.Sublist" "HOL-Library.AList"
begin

section \<open>Parsed documents and the Python operations the program applies to them\<close>

text \<open>
  Both variants (\<^verbatim>\<open>app.py\<close>, the basic one, and \<^verbatim>\<open>investment_catalogue_app.py\<close>,
  the extended one) keep the whole store as the value \<^verbatim>\<open>json.load\<close> returned, or as a
  value of the same shape built by \<^verbatim>\<open>initialize_data_structures\<close>. A Python \<^verbatim>\<open>dict\<close>
  keeps its keys in insertion order and the program depends on that order (the header of
  an exported table, the order of categories), so a dict is an association list; its keys
  are distinct, which theorems assume where they need it. Numbers are integers here
  (the program never computes with them). A string is a list of characters; the
  type of characters has 256 of them, those of ASCII with their codes, and which
  characters the others stand for matters to no function here.
\<close>

datatype json =
    JNull
  | JBool bool
  | JNum int
  | JStr string
  | JArr "json list"
  | JObj "(string \<times> json) list"

type_synonym pydict = "(string \<times> json) list"

text \<open>The exceptions the modelled code can raise.\<close>

datatype error = TypeError | KeyError | AttributeError | ValueError

definition bnd :: "error + 'a \<Rightarrow> ('a \<Rightarrow> error + 'b) \<Rightarrow> error + 'b" where
  "bnd r f = (case r of Inl e \<Rightarrow> Inl e | Inr x \<Rightarrow> f x)"

fun map_res :: "('a \<Rightarrow> error + 'b) \<Rightarrow> 'a list \<Rightarrow> error + 'b list" where
  "map_res f [] = Inr []"
| "map_res f (x # xs) = bnd (f x) (\<lambda>y. bnd (map_res f xs) (\<lambda>ys. Inr (y # ys)))"

text \<open>\<^verbatim>\<open>k in x\<close> for a string \<^verbatim>\<open>k\<close>: a key of a dict, an element of a list, a
  substring of a string; a \<^verbatim>\<open>TypeError\<close> on anything else.\<close>

fun py_in :: "string \<Rightarrow> json \<Rightarrow> error + bool" where
  "py_in k (JObj d) = Inr (k \<in> set (map fst d))"
| "py_in k (JArr xs) = Inr (JStr k \<in> set xs)"
| "py_in k (JStr s) = Inr (sublist k s)"
| "py_in k JNull = Inl TypeError"
| "py_in k (JBool b) = Inl TypeError"
| "py_in k (JNum n) = Inl TypeError"

text \<open>\<^verbatim>\<open>x[k]\<close> for a string \<^verbatim>\<open>k\<close>.\<close>

fun py_getitem :: "json \<Rightarrow> string \<Rightarrow> error + json" where
  "py_getitem (JObj d) k = (case map_of d k of None \<Rightarrow> Inl KeyError | Some v \<Rightarrow> Inr v)"
| "py_getitem JNull k = Inl TypeError"
| "py_getitem (JBool b) k = Inl TypeError"
| "py_getitem (JNum n) k = Inl TypeError"
| "py_getitem (JStr s) k = Inl TypeError"
| "py_getitem (JArr xs) k = Inl TypeError"

text \<open>\<^verbatim>\<open>x.get(k, dflt)\<close>: only a dict has the method.\<close>

fun py_get :: "json \<Rightarrow> string \<Rightarrow> json \<Rightarrow> error + json" where
  "py_get (JObj d) k dflt = Inr (case map_of d k of None \<Rightarrow> dflt | Some v \<Rightarrow> v)"
| "py_get JNull k dflt = Inl AttributeError"
| "py_get (JBool b) k dflt = Inl AttributeError"
| "py_get (JNum n) k dflt = Inl AttributeError"
| "py_get (JStr s) k dflt = Inl AttributeError"
| "py_get (JArr xs) k dflt = Inl AttributeError"

text \<open>\<^verbatim>\<open>for x in v\<close>: the elements of a list, the keys of a dict, the characters of a
  string.\<close>

fun py_iter :: "json \<Rightarrow> error + json list" where
  "py_iter (JArr xs) = Inr xs"
| "py_iter (JObj d) = Inr (map (\<lambda>p. JStr (fst p)) d)"
| "py_iter (JStr s) = Inr (map (\<lambda>c. JStr [c]) s)"
| "py_iter JNull = Inl TypeError"
| "py_iter (JBool b) = Inl TypeError"
| "py_iter (JNum n) = Inl TypeError"

text \<open>Truth value of an object in a condition.\<close>

fun py_truthy :: "json \<Rightarrow> bool" where
  "py_truthy JNull = False"
| "py_truthy (JBool b) = b"
| "py_truthy (JNum n) = (n \<noteq> 0)"
| "py_truthy (JStr s) = (s \<noteq> [])"
| "py_truthy (JArr xs) = (xs \<noteq> [])"
| "py_truthy (JObj d) = (d \<noteq> [])"

text \<open>\<^verbatim>\<open>d[k] = v\<close> keeps the position of an existing key and appends a new one;
  \<^verbatim>\<open>d.pop(k, None)\<close> removes the key; \<^verbatim>\<open>d.update(e)\<close> assigns the items of
  \<^verbatim>\<open>e\<close> in order.\<close>

definition dict_set :: "pydict \<Rightarrow> string \<Rightarrow> json \<Rightarrow> pydict" where
  "dict_set d k v = AList.update k v d"

definition dict_pop :: "pydict \<Rightarrow> string \<Rightarrow> pydict" where
  "dict_pop d k = AList.delete k d"

definition dict_update :: "pydict \<Rightarrow> pydict \<Rightarrow> pydict" where
  "dict_update d e = foldl (\<lambda>acc p. dict_set acc (fst p) (snd p)) d e"

section \<open>The empty store\<close>

definition section_of :: "string list \<Rightarrow> json" where
  "section_of cols = JObj [(''columns'', JArr (map JStr cols)), (''data'', JArr [])]"

definition initialize_data_structures :: json where
  "initialize_data_structures = JObj
    [(''family_info'', section_of [''Name'', ''Aadhar No.'', ''PAN no'', ''Voter id no'']),
     (''bank_accounts'', section_of [''Holders'', ''Account Type'', ''BANK NAME'', ''ACCOUNT NO'']),
     (''fixed_deposits'', section_of [''Holders'', ''Bank Name'', ''Rate (%)'', ''Number of Days'',
        ''Start Date'', ''End Date'', ''Amount'']),
     (''demat_accounts'', section_of [''Holders'', ''Provider'', ''Account Number'']),
     (''mutual_funds'', section_of [''Holders'', ''Provider'', ''Fund Name'', ''Folio Number'']),
     (''investments'', section_of [''Holders'', ''BANK NAME'', ''ACCOUNT NO'', ''Details'']),
     (''insurance'', section_of [''Holders'', ''COMPANY'', ''POLICY NO'', ''SUM ASSURED'']),
     (''locker'', section_of [''Holders'', ''BANK NAME'', ''LOCKER NO'']),
     (''vehicle_details'', section_of [''Owners'', ''VEHICLE MAKE'', ''REGISTRATION NO'']),
     (''property'', section_of [''Owners'', ''PROPERTY DETAILS'', ''LOCATION''])]"

section \<open>Record store: lookup and the save callbacks\<close>

text \<open>\<^verbatim>\<open>self.data_store[section]['data']\<close>, as the sequence a \<^verbatim>\<open>for\<close> loop or a
  generator walks through.\<close>

definition records_of :: "json \<Rightarrow> string \<Rightarrow> error + json list" where
  "records_of store sec =
     bnd (py_getitem store sec) (\<lambda>content.
     bnd (py_getitem content ''data'') py_iter)"

text \<open>
  \<^verbatim>\<open>x == y\<close> on parsed values: \<^verbatim>\<open>True\<close> and \<^verbatim>\<open>False\<close> are the integers 1 and 0,
  lists are equal element by element, and dicts are equal when they have the same keys
  with equal values, in whatever order.
\<close>

fun py_eq :: "json \<Rightarrow> json \<Rightarrow> bool" where
  "py_eq (JArr xs) (JArr ys) = list_all2 py_eq xs ys"
| "py_eq (JObj d) (JObj e) =
     (length d = length e
      \<and> list_all (\<lambda>p. case map_of e (fst p) of None \<Rightarrow> False | Some w \<Rightarrow> py_eq (snd p) w) d)"
| "py_eq (JBool a) (JNum n) = (n = (if a then 1 else 0))"
| "py_eq (JNum n) (JBool a) = (n = (if a then 1 else 0))"
| "py_eq x y = (x = y)"

text \<open>\<^verbatim>\<open>next((m for m in recs if m.get('id') == i), None)\<close>, returning the position of
  the record found: the generator stops at the first match, so a later element that is
  not a dict raises nothing. The identifier sought is a string in every call but the
  export's, where it is an element of a \<^verbatim>\<open>holders\<close> value.\<close>

fun find_by_id :: "json list \<Rightarrow> json \<Rightarrow> error + nat option" where
  "find_by_id [] i = Inr None"
| "find_by_id (m # ms) i =
     bnd (py_get m ''id'' JNull) (\<lambda>v.
       if py_eq v i then Inr (Some 0)
       else bnd (find_by_id ms i) (\<lambda>r. Inr (map_option Suc r)))"

definition get_member_by_id :: "json \<Rightarrow> json \<Rightarrow> error + json option" where
  "get_member_by_id store i =
     bnd (records_of store ''family_info'') (\<lambda>ms.
     bnd (find_by_id ms i) (\<lambda>r. Inr (map_option (\<lambda>k. ms ! k) r)))"

text \<open>\<^verbatim>\<open>self.data_store[section]['data'] = recs\<close>, and the same effect reached by
  mutating a record of that list in place. Only called after \<^const>\<open>records_of\<close> has
  succeeded, so the store and the section are dicts.\<close>

definition set_data :: "json \<Rightarrow> string \<Rightarrow> json \<Rightarrow> json" where
  "set_data store sec v =
     (case store of
        JObj d \<Rightarrow>
          (case map_of d sec of
             Some (JObj c) \<Rightarrow> JObj (dict_set d sec (JObj (dict_set c ''data'' v)))
           | _ \<Rightarrow> store)
      | _ \<Rightarrow> store)"

text \<open>\<^verbatim>\<open>self.data_store[section]['data'].append(rec)\<close>: only a list has the method.\<close>

definition append_record :: "json \<Rightarrow> string \<Rightarrow> json \<Rightarrow> error + json" where
  "append_record store sec rec =
     bnd (py_getitem store sec) (\<lambda>content.
     bnd (py_getitem content ''data'') (\<lambda>data.
       case data of
         JArr recs \<Rightarrow> Inr (set_data store sec (JArr (recs @ [rec])))
       | _ \<Rightarrow> Inl AttributeError))"

text \<open>\<^verbatim>\<open>if rec: rec.update(new_data)\<close> on the record found at position \<open>k\<close>. A record
  that was found answered \<^verbatim>\<open>get\<close>, so it is a dict.\<close>

definition update_found :: "json \<Rightarrow> string \<Rightarrow> json list \<Rightarrow> nat \<Rightarrow> pydict \<Rightarrow> json" where
  "update_found store sec recs k new_data =
     (case recs ! k of
        JObj d \<Rightarrow>
          if d \<noteq> [] then set_data store sec (JArr (recs[k := JObj (dict_update d new_data)]))
          else store
      | _ \<Rightarrow> store)"

text \<open>
  \<^verbatim>\<open>save_member(_, new_data, member_id)\<close> and \<^verbatim>\<open>save_asset(section_title, new_data,
  asset_id)\<close>, the same in both variants. \<open>member_id\<close> is \<^verbatim>\<open>None\<close> for a new record and
  the selected row's identifier for an edit; \<open>fresh\<close> is the value
  \<^verbatim>\<open>str(uuid.uuid4())\<close> returns if it is called. The refresh of the views that follows
  does not touch the store and is left out.
\<close>

definition save_member :: "json \<Rightarrow> pydict \<Rightarrow> string option \<Rightarrow> string \<Rightarrow> error + json" where
  "save_member store new_data member_id fresh =
     (case member_id of
        Some (c # cs) \<Rightarrow>
          bnd (records_of store ''family_info'') (\<lambda>ms.
          bnd (find_by_id ms (JStr (c # cs))) (\<lambda>r.
            case r of
              None \<Rightarrow> Inr store
            | Some k \<Rightarrow> Inr (update_found store ''family_info'' ms k new_data)))
      | _ \<Rightarrow> append_record store ''family_info'' (JObj (dict_set new_data ''id'' (JStr fresh))))"

definition save_asset :: "json \<Rightarrow> string \<Rightarrow> pydict \<Rightarrow> string option \<Rightarrow> string \<Rightarrow> error + json" where
  "save_asset store section_title new_data asset_id fresh =
     (case asset_id of
        Some (c # cs) \<Rightarrow>
          bnd (records_of store section_title) (\<lambda>recs.
          bnd (find_by_id recs (JStr (c # cs))) (\<lambda>r.
            case r of
              None \<Rightarrow> Inr store
            | Some k \<Rightarrow> Inr (update_found store section_title recs k new_data)))
      | _ \<Rightarrow> append_record store section_title (JObj (dict_set new_data ''id'' (JStr fresh))))"

section \<open>Deleting a member\<close>

text \<open>\<^verbatim>\<open>[m for m in recs if m.get('id') != i]\<close>.\<close>

fun drop_by_id :: "json list \<Rightarrow> string \<Rightarrow> error + json list" where
  "drop_by_id [] i = Inr []"
| "drop_by_id (m # ms) i =
     bnd (py_get m ''id'' JNull) (\<lambda>v.
     bnd (drop_by_id ms i) (\<lambda>r. Inr (if v \<noteq> JStr i then m # r else r)))"

text \<open>\<^verbatim>\<open>hs.remove(i)\<close>: a list loses the first element equal to \<^verbatim>\<open>i\<close> and raises
  \<^verbatim>\<open>ValueError\<close> when there is none; nothing else has the method.\<close>

definition list_remove :: "json \<Rightarrow> string \<Rightarrow> error + json" where
  "list_remove hs i =
     (case hs of
        JArr xs \<Rightarrow> if JStr i \<in> set xs then Inr (JArr (remove1 (JStr i) xs)) else Inl ValueError
      | _ \<Rightarrow> Inl AttributeError)"

text \<open>The effect on a record of mutating the value under one of its keys in place.\<close>

definition set_item :: "json \<Rightarrow> string \<Rightarrow> json \<Rightarrow> json" where
  "set_item rec k v = (case rec of JObj d \<Rightarrow> JObj (dict_set d k v) | _ \<Rightarrow> rec)"

text \<open>Applying a loop body to every value of a dict, in order, stopping at the first
  exception.\<close>

fun map_values_res :: "(json \<Rightarrow> error + json) \<Rightarrow> pydict \<Rightarrow> error + pydict" where
  "map_values_res f [] = Inr []"
| "map_values_res f (p # d) =
     bnd (f (snd p)) (\<lambda>v. bnd (map_values_res f d) (\<lambda>d'. Inr ((fst p, v) # d')))"

text \<open>
  The loop over \<^verbatim>\<open>section['data']\<close> with body \<open>body\<close>. The body mutates the records
  it visits; when the value walked through is a dict or a string the loop visits strings,
  which nothing can mutate.
\<close>

definition strip_data :: "(json \<Rightarrow> error + json) \<Rightarrow> json \<Rightarrow> error + json" where
  "strip_data body content =
     bnd (py_getitem content ''data'') (\<lambda>data.
     bnd (py_iter data) (\<lambda>assets.
     bnd (map_res body assets) (\<lambda>assets'.
       Inr (case data of JArr _ \<Rightarrow> set_item content ''data'' (JArr assets') | _ \<Rightarrow> content))))"

text \<open>
  \<^verbatim>\<open>delete_member_from_button\<close> of \<^verbatim>\<open>app.py\<close>. \<open>selected\<close> is the selected row, if
  any; \<open>confirm\<close> is the answer to the confirmation dialog. The member found was found
  by \<^verbatim>\<open>m.get('id') == selected[0]\<close>, so \<^verbatim>\<open>member.get('id')\<close> is \<^verbatim>\<open>selected[0]\<close>.
  An exception leaves the callback; the model then returns the exception only, not the
  store as far as it had been changed.
\<close>

definition strip_holder_basic :: "string \<Rightarrow> json \<Rightarrow> error + json" where
  "strip_holder_basic mid asset =
     bnd (py_in ''holders'' asset) (\<lambda>has.
       if has then
         bnd (py_getitem asset ''holders'') (\<lambda>hs.
         bnd (py_in mid hs) (\<lambda>held.
           if held then bnd (list_remove hs mid) (\<lambda>hs'. Inr (set_item asset ''holders'' hs'))
           else Inr asset))
       else Inr asset)"

definition strip_section_basic :: "string \<Rightarrow> json \<Rightarrow> error + json" where
  "strip_section_basic mid section =
     (case section of
        JObj c \<Rightarrow>
          if ''data'' \<in> set (map fst c) then strip_data (strip_holder_basic mid) section
          else Inr section
      | _ \<Rightarrow> Inr section)"

definition delete_cascade ::
  "(json \<Rightarrow> error + json) \<Rightarrow> json \<Rightarrow> string \<Rightarrow> error + json" where
  "delete_cascade per_section store mid =
     bnd (records_of store ''family_info'') (\<lambda>ms.
     bnd (drop_by_id ms mid) (\<lambda>kept.
       case set_data store ''family_info'' (JArr kept) of
         JObj d \<Rightarrow> bnd (map_values_res per_section d) (\<lambda>d'. Inr (JObj d'))
       | _ \<Rightarrow> Inl AttributeError))"

definition delete_member_from_button :: "json \<Rightarrow> string option \<Rightarrow> bool \<Rightarrow> error + json" where
  "delete_member_from_button store selected confirm =
     (case selected of
        None \<Rightarrow> Inr store
      | Some sel \<Rightarrow>
          bnd (get_member_by_id store (JStr sel)) (\<lambda>member.
            case member of
              None \<Rightarrow> Inr store
            | Some m \<Rightarrow>
                if \<not> py_truthy m then Inr store
                else if confirm then delete_cascade (strip_section_basic sel) store sel
                else Inr store))"

text \<open>
  \<^verbatim>\<open>delete_member\<close> of \<^verbatim>\<open>investment_catalogue_app.py\<close>: only a section whose columns
  hold \<^verbatim>\<open>Holders\<close> or \<^verbatim>\<open>Owners\<close> is walked through.
\<close>

definition strip_holder_ext :: "string \<Rightarrow> json \<Rightarrow> error + json" where
  "strip_holder_ext mid asset =
     bnd (py_get asset ''holders'' (JArr [])) (\<lambda>hs.
     bnd (py_in mid hs) (\<lambda>held.
       if held then
         bnd (py_getitem asset ''holders'') (\<lambda>hs2.
         bnd (list_remove hs2 mid) (\<lambda>hs'. Inr (set_item asset ''holders'' hs')))
       else Inr asset))"

definition is_holder_section :: "json \<Rightarrow> error + bool" where
  "is_holder_section content =
     bnd (py_in ''data'' content) (\<lambda>a.
       if \<not> a then Inr False
       else bnd (py_in ''columns'' content) (\<lambda>b.
         if \<not> b then Inr False
         else bnd (py_getitem content ''columns'') (\<lambda>cols.
              bnd (py_in ''Holders'' cols) (\<lambda>h.
                if h then Inr True
                else bnd (py_getitem content ''columns'') (py_in ''Owners'')))))"

definition strip_section_ext :: "string \<Rightarrow> json \<Rightarrow> error + json" where
  "strip_section_ext mid content =
     bnd (is_holder_section content) (\<lambda>h.
       if h then strip_data (strip_holder_ext mid) content else Inr content)"

definition delete_member :: "json \<Rightarrow> string option \<Rightarrow> bool \<Rightarrow> error + json" where
  "delete_member store selected confirm =
     (case selected of
        None \<Rightarrow> Inr store
      | Some member_id \<Rightarrow>
          bnd (get_member_by_id store (JStr member_id)) (\<lambda>member.
            case member of
              None \<Rightarrow> Inr store
            | Some m \<Rightarrow>
                if \<not> py_truthy m then Inr store
                else bnd (py_get m ''Name'' (JStr ''this member'')) (\<lambda>member_name.
                  if confirm then delete_cascade (strip_section_ext member_id) store member_id
                  else Inr store)))"

text \<open>
  Two conditions on a section whose records are dicts, for the statements about the
  deletion: every \<^verbatim>\<open>holders\<close> of a record is a list that names nobody twice; and, for
  an identifier, every \<^verbatim>\<open>holders\<close> of a record is a list that does not name it.
\<close>

definition single_holders :: "json \<Rightarrow> bool" where
  "single_holders content \<longleftrightarrow>
     (\<exists>c recs. content = JObj c \<and> map_of c ''data'' = Some (JArr (map JObj recs))
        \<and> (\<forall>e\<in>set recs. \<forall>v. map_of e ''holders'' = Some v
               \<longrightarrow> (\<exists>xs. v = JArr xs \<and> distinct xs)))"

definition cleaned :: "string \<Rightarrow> json \<Rightarrow> bool" where
  "cleaned i content \<longleftrightarrow>
     (\<exists>c recs. content = JObj c \<and> map_of c ''data'' = Some (JArr (map JObj recs))
        \<and> (\<forall>e\<in>set recs. \<forall>v. map_of e ''holders'' = Some v
               \<longrightarrow> (\<exists>xs. v = JArr xs \<and> JStr i \<notin> set xs)))"

section \<open>The assets of a member\<close>

text \<open>
  \<^verbatim>\<open>display_member_assets\<close>: for every section but \<^verbatim>\<open>family_info\<close>, the records
  \<^verbatim>\<open>[asset for asset in content['data'] if member_id in asset.get('holders', [])]\<close>,
  in the order of the store. The model returns the records listed, each with its section;
  how they are laid out in the text widget is left out.
\<close>

fun held_assets :: "string \<Rightarrow> json list \<Rightarrow> error + json list" where
  "held_assets mid [] = Inr []"
| "held_assets mid (a # as) =
     bnd (py_get a ''holders'' (JArr [])) (\<lambda>hs.
     bnd (py_in mid hs) (\<lambda>held.
     bnd (held_assets mid as) (\<lambda>r. Inr (if held then a # r else r))))"

text \<open>\<^verbatim>\<open>display_member_assets\<close> of \<^verbatim>\<open>investment_catalogue_app.py\<close>, which joins
  the attributes of every record listed into one line; nothing there raises.\<close>

fun section_assets :: "string \<Rightarrow> pydict \<Rightarrow> error + (string \<times> json) list" where
  "section_assets mid [] = Inr []"
| "section_assets mid (p # rest) =
     (if fst p = ''family_info'' then section_assets mid rest
      else
        bnd (py_getitem (snd p) ''data'') (\<lambda>data.
        bnd (py_iter data) (\<lambda>assets.
        bnd (held_assets mid assets) (\<lambda>held.
        bnd (section_assets mid rest) (\<lambda>r. Inr (map (Pair (fst p)) held @ r))))))"

definition display_member_assets :: "json \<Rightarrow> string option \<Rightarrow> error + (string \<times> json) list" where
  "display_member_assets store selected =
     (case selected of
        None \<Rightarrow> Inr []
      | Some sel \<Rightarrow>
          bnd (get_member_by_id store (JStr sel)) (\<lambda>member.
            case member of
              None \<Rightarrow> Inr []
            | Some m \<Rightarrow>
                if \<not> py_truthy m then Inr []
                else (case store of JObj d \<Rightarrow> section_assets sel d | _ \<Rightarrow> Inl AttributeError)))"

text \<open>
  \<^verbatim>\<open>display_member_assets\<close> of \<^verbatim>\<open>app.py\<close> heads every record listed with
  \<^verbatim>\<open>asset.get('Fund Name') or asset.get('PROPERTY DETAILS') or asset.get('POLICY NO')
  or f"ID: {asset.get('id')[:8]}"\<close>: the first of the three attributes that is true as a
  condition and, when none is, the first eight characters of the identifier. \<^verbatim>\<open>x[:8]\<close>
  is defined for a string and a list; for \<^verbatim>\<open>None\<close>, which \<^verbatim>\<open>get\<close> returns for a
  record without \<^verbatim>\<open>id\<close>, and for a number it raises \<^verbatim>\<open>TypeError\<close>. For a dict it
  raises \<^verbatim>\<open>TypeError\<close> up to Python 3.11 and \<^verbatim>\<open>KeyError\<close> from Python 3.12 on; that
  exception is the parameter \<open>dict_slice_error\<close>. The records listed pass the test
  \<^verbatim>\<open>asset.get('holders', [])\<close>, so they are dicts. The listing of a section comes
  after its records have been collected and before the next section is looked at.
\<close>

definition py_slice8 :: "error \<Rightarrow> json \<Rightarrow> error + json" where
  "py_slice8 dict_slice_error x =
     (case x of
        JStr s \<Rightarrow> Inr (JStr (take 8 s))
      | JArr xs \<Rightarrow> Inr (JArr (take 8 xs))
      | JObj d \<Rightarrow> Inl dict_slice_error
      | _ \<Rightarrow> Inl TypeError)"

definition asset_title :: "error \<Rightarrow> json \<Rightarrow> error + json" where
  "asset_title dict_slice_error asset =
     bnd (py_get asset ''Fund Name'' JNull) (\<lambda>a.
       if py_truthy a then Inr a
       else bnd (py_get asset ''PROPERTY DETAILS'' JNull) (\<lambda>b.
         if py_truthy b then Inr b
         else bnd (py_get asset ''POLICY NO'' JNull) (\<lambda>c.
           if py_truthy c then Inr c
           else bnd (py_get asset ''id'' JNull) (py_slice8 dict_slice_error))))"

fun section_assets_basic :: "error \<Rightarrow> string \<Rightarrow> pydict \<Rightarrow> error + (string \<times> json) list" where
  "section_assets_basic dict_slice_error mid [] = Inr []"
| "section_assets_basic dict_slice_error mid (p # rest) =
     (if fst p = ''family_info'' then section_assets_basic dict_slice_error mid rest
      else
        bnd (py_getitem (snd p) ''data'') (\<lambda>data.
        bnd (py_iter data) (\<lambda>assets.
        bnd (held_assets mid assets) (\<lambda>held.
        bnd (map_res (asset_title dict_slice_error) held) (\<lambda>titles.
        bnd (section_assets_basic dict_slice_error mid rest) (\<lambda>r.
          Inr (map (Pair (fst p)) held @ r)))))))"

definition display_member_assets_basic ::
  "error \<Rightarrow> json \<Rightarrow> string option \<Rightarrow> error + (string \<times> json) list" where
  "display_member_assets_basic dict_slice_error store selected =
     (case selected of
        None \<Rightarrow> Inr []
      | Some sel \<Rightarrow>
          bnd (get_member_by_id store (JStr sel)) (\<lambda>member.
            case member of
              None \<Rightarrow> Inr []
            | Some m \<Rightarrow>
                if \<not> py_truthy m then Inr []
                else (case store of
                        JObj d \<Rightarrow> section_assets_basic dict_slice_error sel d
                      | _ \<Rightarrow> Inl AttributeError)))"

section \<open>Filtering the records of a section\<close>

text \<open>
  \<^verbatim>\<open>str.lower\<close> is Python's built-in. It follows the case mappings of Unicode and is
  not a map over the characters of the string: a capital sigma becomes the final or the
  medial small sigma according to its place in the word, and a capital I with a dot above
  becomes two characters. It is the parameter \<open>lower\<close>, a function from strings to
  strings. \<^verbatim>\<open>str(val)\<close> is the value itself for a string; for any other value it is the
  text \<open>repr\<close> gives, a parameter standing for Python's built-in conversion.
\<close>

definition py_str :: "(json \<Rightarrow> string) \<Rightarrow> json \<Rightarrow> string" where
  "py_str repr v = (case v of JStr s \<Rightarrow> s | _ \<Rightarrow> repr v)"

text \<open>\<^verbatim>\<open>any(search_term in str(val).lower() for val in rec.values())\<close>.\<close>

definition record_matches ::
  "(string \<Rightarrow> string) \<Rightarrow> (json \<Rightarrow> string) \<Rightarrow> string \<Rightarrow> json \<Rightarrow> error + bool" where
  "record_matches lower repr search_term rec =
     (case rec of
        JObj d \<Rightarrow> Inr (list_ex (\<lambda>val. sublist search_term (lower (py_str repr val))) (map snd d))
      | _ \<Rightarrow> Inl AttributeError)"

fun filter_records ::
  "(string \<Rightarrow> string) \<Rightarrow> (json \<Rightarrow> string) \<Rightarrow> string \<Rightarrow> json list \<Rightarrow> error + json list" where
  "filter_records lower repr search_term [] = Inr []"
| "filter_records lower repr search_term (rec # recs) =
     bnd (record_matches lower repr search_term rec) (\<lambda>b.
     bnd (filter_records lower repr search_term recs) (\<lambda>r. Inr (if b then rec # r else r)))"

text \<open>\<^verbatim>\<open>filter_treeview\<close> of \<^verbatim>\<open>app.py\<close>: the records handed to \<^verbatim>\<open>refresh_treeview\<close>,
  which shows them in that order. \<open>typed\<close> is the content of the search box.\<close>

definition filter_treeview ::
  "(string \<Rightarrow> string) \<Rightarrow> (json \<Rightarrow> string) \<Rightarrow> json \<Rightarrow> string \<Rightarrow> string \<Rightarrow> error + json list" where
  "filter_treeview lower repr store section_title typed =
     (let search_term = lower typed in
      bnd (py_getitem store section_title) (\<lambda>content.
      bnd (py_getitem content ''data'') (\<lambda>all_records.
        if search_term = [] then py_iter all_records
        else bnd (py_iter all_records) (filter_records lower repr search_term))))"

text \<open>
  The words of the specification for the filter, on text in which the only letters are
  the 26 of ASCII: such a text contains a search term case-insensitively when, at some
  position of the text, the characters that follow are those of the term up to the case
  of letters. \<open>ascii_lower\<close> turns the capital letters of ASCII into the small ones and
  leaves every other character as it is; it is what \<^verbatim>\<open>str.lower\<close> does to a text of
  ASCII characters, and not what it does to other text.
\<close>

definition ascii_lower_char :: "char \<Rightarrow> char" where
  "ascii_lower_char c =
     (let n = (of_char c :: nat) in if 65 \<le> n \<and> n \<le> 90 then char_of (n + 32) else c)"

definition ascii_lower :: "string \<Rightarrow> string" where
  "ascii_lower s = map ascii_lower_char s"

definition ci_contains :: "string \<Rightarrow> string \<Rightarrow> bool" where
  "ci_contains txt term =
     list_ex (\<lambda>i. ascii_lower (take (length term) (drop i txt)) = ascii_lower term)
       [0 ..< Suc (length txt)]"

text \<open>
  A Greek word and one of its letters for the examples, the letters written with their
  codes in ISO 8859-7: the word of the four capitals omicron, delta, omicron, sigma; the
  capital sigma alone; and what \<^verbatim>\<open>str.lower\<close> makes of each, the word ending in the
  final small sigma, the single letter becoming the medial one. \<open>sample_lower\<close> is
  \<^verbatim>\<open>str.lower\<close> on these two texts and on texts of ASCII characters.
\<close>

definition greek_odos :: string where
  "greek_odos = [CHR 0xCF, CHR 0xC4, CHR 0xCF, CHR 0xD3]"

definition greek_sigma :: string where
  "greek_sigma = [CHR 0xD3]"

definition sample_lower :: "string \<Rightarrow> string" where
  "sample_lower s =
     (if s = greek_odos then [CHR 0xEF, CHR 0xE4, CHR 0xEF, CHR 0xF2]
      else if s = greek_sigma then [CHR 0xF3]
      else ascii_lower s)"

section \<open>Tabular export\<close>

text \<open>
  \<^verbatim>\<open>export_to_csv\<close> of \<^verbatim>\<open>app.py\<close>. The records it writes are the dicts
  \<^verbatim>\<open>dict(r)\<close> makes of the elements of \<^verbatim>\<open>content['data']\<close>. When \<^verbatim>\<open>r\<close> is a
  dict that is a copy, with strings as keys; when it is a list of pairs the keys are
  whatever the pairs begin with, so a row is an association list with parsed values as
  keys. Two keys are the same key when they are equal as \<^verbatim>\<open>==\<close> has it; a list or a
  dict cannot be a key.
\<close>

type_synonym pyrow = "(json \<times> json) list"

definition hashable :: "json \<Rightarrow> bool" where
  "hashable k = (case k of JArr _ \<Rightarrow> False | JObj _ \<Rightarrow> False | _ \<Rightarrow> True)"

fun row_get :: "pyrow \<Rightarrow> json \<Rightarrow> json option" where
  "row_get [] k = None"
| "row_get (p # d) k = (if py_eq (fst p) k then Some (snd p) else row_get d k)"

fun row_set :: "pyrow \<Rightarrow> json \<Rightarrow> json \<Rightarrow> pyrow" where
  "row_set [] k v = [(k, v)]"
| "row_set (p # d) k v = (if py_eq (fst p) k then (fst p, v) # d else p # row_set d k v)"

definition row_pop :: "pyrow \<Rightarrow> json \<Rightarrow> pyrow" where
  "row_pop d k = filter (\<lambda>p. \<not> py_eq (fst p) k) d"

text \<open>
  \<^verbatim>\<open>dict(r)\<close>. A dict is copied. Anything else is walked through as a sequence of
  pairs: every element has to be iterable (\<^verbatim>\<open>TypeError\<close> otherwise) and to yield
  exactly two values (\<^verbatim>\<open>ValueError\<close> otherwise), of which the first becomes the key,
  if it can be one (\<^verbatim>\<open>TypeError\<close> otherwise), and the second the value; a key that
  comes again keeps its place and takes the later value.
\<close>

definition pair_of :: "json \<Rightarrow> error + json \<times> json" where
  "pair_of x =
     bnd (py_iter x) (\<lambda>ys. case ys of [k, v] \<Rightarrow> Inr (k, v) | _ \<Rightarrow> Inl ValueError)"

fun from_pairs :: "pyrow \<Rightarrow> json list \<Rightarrow> error + pyrow" where
  "from_pairs acc [] = Inr acc"
| "from_pairs acc (x # xs) =
     bnd (pair_of x) (\<lambda>p.
       if hashable (fst p) then from_pairs (row_set acc (fst p) (snd p)) xs
       else Inl TypeError)"

definition keyed :: "pydict \<Rightarrow> pyrow" where
  "keyed d = map (\<lambda>p. (JStr (fst p), snd p)) d"

definition py_dict :: "json \<Rightarrow> error + pyrow" where
  "py_dict r =
     (case r of
        JObj d \<Rightarrow> Inr (keyed d)
      | _ \<Rightarrow> bnd (py_iter r) (from_pairs []))"

text \<open>\<^verbatim>\<open>self.get_member_by_id(hid).get('Name', '?') if self.get_member_by_id(hid) else '?'\<close>.\<close>

definition holder_name :: "json \<Rightarrow> json \<Rightarrow> error + json" where
  "holder_name store hid =
     bnd (get_member_by_id store hid) (\<lambda>member.
       case member of
         None \<Rightarrow> Inr (JStr ''?'')
       | Some m \<Rightarrow> if py_truthy m then py_get m ''Name'' (JStr ''?'') else Inr (JStr ''?''))"

text \<open>\<^verbatim>\<open>sep.join(xs)\<close>: every element has to be a string.\<close>

fun py_join :: "string \<Rightarrow> json list \<Rightarrow> error + string" where
  "py_join sep [] = Inr []"
| "py_join sep [JStr s] = Inr s"
| "py_join sep (JStr s # v # vs) = bnd (py_join sep (v # vs)) (\<lambda>r. Inr (s @ sep @ r))"
| "py_join sep (v # vs) = Inl TypeError"

text \<open>The body of the loop over the copied records of one section. In the assignment
  to the holder column the joined names are computed before the columns are looked at.\<close>

definition export_record :: "json \<Rightarrow> json \<Rightarrow> pyrow \<Rightarrow> error + pyrow" where
  "export_record store content record =
     bnd (case row_get record (JStr ''holders'') of
            Some holder_ids \<Rightarrow>
              (let popped = row_pop record (JStr ''holders'')
               in bnd (py_iter holder_ids) (\<lambda>ids.
                  bnd (map_res (holder_name store) ids) (\<lambda>holder_names.
                  bnd (py_join '', '' holder_names) (\<lambda>joined.
                  bnd (py_getitem content ''columns'') (\<lambda>cols.
                  bnd (py_in ''Owners'' cols) (\<lambda>owners.
                    Inr (row_set popped (JStr (if owners then ''Owners'' else ''Holders''))
                           (JStr joined))))))))
          | None \<Rightarrow> Inr record)
       (\<lambda>r. Inr (row_pop r (JStr ''id'')))"

text \<open>
  A file is modelled by what \<^verbatim>\<open>csv.DictWriter\<close> is given: its name, the field names
  and, for every record written, the cells \<^verbatim>\<open>rowdict.get(key, '')\<close> in the order of
  the field names. The writer raises \<^verbatim>\<open>ValueError\<close> on a record with a key that is no
  field name; the rows before that record have been written then, and the file stays. How
  a cell is quoted in the text of the file, and failures of the file system, are left out.
\<close>

record csv_file =
  name :: string
  header :: "json list"
  rows :: "json list list"

definition row_cells :: "json list \<Rightarrow> pyrow \<Rightarrow> error + json list" where
  "row_cells fieldnames row =
     (if list_ex (\<lambda>k. \<not> list_ex (py_eq k) fieldnames) (map fst row) then Inl ValueError
      else Inr (map (\<lambda>k. case row_get row k of None \<Rightarrow> JStr [] | Some v \<Rightarrow> v) fieldnames))"

fun write_rows :: "json list \<Rightarrow> pyrow list \<Rightarrow> json list list \<times> error option" where
  "write_rows fieldnames [] = ([], None)"
| "write_rows fieldnames (r # rs) =
     (case row_cells fieldnames r of
        Inl e \<Rightarrow> ([], Some e)
      | Inr cells \<Rightarrow>
          (cells # fst (write_rows fieldnames rs), snd (write_rows fieldnames rs)))"

text \<open>\<^verbatim>\<open>records_to_write\<close> for one section, \<^verbatim>\<open>None\<close> when the section is passed
  over because its \<^verbatim>\<open>data\<close> is false as a condition.\<close>

definition records_to_write :: "json \<Rightarrow> json \<Rightarrow> error + pyrow list option" where
  "records_to_write store content =
     bnd (py_getitem content ''data'') (\<lambda>data.
       if \<not> py_truthy data then Inr None
       else
         bnd (py_iter data) (\<lambda>rs.
         bnd (map_res py_dict rs) (\<lambda>original_records.
         bnd (map_res (export_record store content) original_records) (\<lambda>ws. Inr (Some ws)))))"

text \<open>The body of the loop over the sections: the file written, if one was opened, and
  the exception raised, if any.\<close>

definition export_section :: "json \<Rightarrow> string \<Rightarrow> json \<Rightarrow> csv_file option \<times> error option" where
  "export_section store section_title content =
     (case records_to_write store content of
        Inl e \<Rightarrow> (None, Some e)
      | Inr None \<Rightarrow> (None, None)
      | Inr (Some []) \<Rightarrow> (None, None)
      | Inr (Some (first # rest)) \<Rightarrow>
          (let fieldnames = map fst first;
               written = write_rows fieldnames (first # rest)
           in (Some \<lparr>name = section_title @ ''.csv'', header = fieldnames,
                     rows = fst written\<rparr>,
               snd written)))"

text \<open>The loop over the sections: the files written, the last of them cut short when
  an exception was raised while its rows were written, and that exception.\<close>

fun export_sections :: "json \<Rightarrow> pydict \<Rightarrow> csv_file list \<times> error option" where
  "export_sections store [] = ([], None)"
| "export_sections store (p # rest) =
     (case export_section store (fst p) (snd p) of
        (f, Some e) \<Rightarrow> (case f of None \<Rightarrow> [] | Some x \<Rightarrow> [x], Some e)
      | (f, None) \<Rightarrow>
          ((case f of None \<Rightarrow> [] | Some x \<Rightarrow> [x]) @ fst (export_sections store rest),
           snd (export_sections store rest)))"

text \<open>\<^verbatim>\<open>any(content['data'] for content in self.data_store.values())\<close>.\<close>

fun any_data :: "pydict \<Rightarrow> error + bool" where
  "any_data [] = Inr False"
| "any_data (p # rest) =
     bnd (py_getitem (snd p) ''data'') (\<lambda>data. if py_truthy data then Inr True else any_data rest)"

definition export_to_csv :: "json \<Rightarrow> bool \<Rightarrow> csv_file list \<times> error option" where
  "export_to_csv store directory_chosen =
     (case store of
        JObj d \<Rightarrow>
          (case any_data d of
             Inl e \<Rightarrow> ([], Some e)
           | Inr nonempty \<Rightarrow>
               if \<not> nonempty then ([], None)
               else if \<not> directory_chosen then ([], None)
               else export_sections store d)
      | _ \<Rightarrow> ([], Some AttributeError))"




definition holder_ids :: "pydict \<Rightarrow> string list" where
  "holder_ids e = (case map_of e ''holders'' of Some (JArr hs) \<Rightarrow> [i. JStr i \<leftarrow> hs] | _ \<Rightarrow> [])"






section \<open>Migration of the older format\<close>

text \<open>\<^verbatim>\<open>x[k] = v\<close> and \<^verbatim>\<open>x.pop(k)\<close> for a string \<^verbatim>\<open>k\<close>: a list takes integers
  only, a string has neither.\<close>

definition py_setitem :: "json \<Rightarrow> string \<Rightarrow> json \<Rightarrow> error + json" where
  "py_setitem x k v = (case x of JObj d \<Rightarrow> Inr (JObj (dict_set d k v)) | _ \<Rightarrow> Inl TypeError)"

definition py_pop :: "json \<Rightarrow> string \<Rightarrow> error + json \<times> json" where
  "py_pop x k =
     (case x of
        JObj d \<Rightarrow> (case map_of d k of None \<Rightarrow> Inl KeyError | Some v \<Rightarrow> Inr (v, JObj (dict_pop d k)))
      | JArr xs \<Rightarrow> Inl TypeError
      | _ \<Rightarrow> Inl AttributeError)"

text \<open>
  The identifiers \<^verbatim>\<open>str(uuid.uuid4())\<close> returns are the values \<open>gen 0\<close>, \<open>gen 1\<close>, ... of
  a parameter; the state threaded through the migration is the number of identifiers
  drawn so far.

  \<^verbatim>\<open>if 'id' not in rec: rec['id'] = str(uuid.uuid4())\<close>:
\<close>

definition assign_id :: "(nat \<Rightarrow> string) \<Rightarrow> nat \<Rightarrow> json \<Rightarrow> error + json \<times> nat" where
  "assign_id gen n rec =
     bnd (py_in ''id'' rec) (\<lambda>has.
       if has then Inr (rec, n)
       else bnd (py_setitem rec ''id'' (JStr (gen n))) (\<lambda>rec'. Inr (rec', Suc n)))"

text \<open>\<^verbatim>\<open>if 'name' in rec and 'Name' not in rec: rec['Name'] = rec.pop('name')\<close>:\<close>

definition rename_name :: "json \<Rightarrow> error + json" where
  "rename_name rec =
     bnd (py_in ''name'' rec) (\<lambda>a.
       if \<not> a then Inr rec
       else bnd (py_in ''Name'' rec) (\<lambda>b.
         if b then Inr rec
         else bnd (py_pop rec ''name'') (\<lambda>p. py_setitem (snd p) ''Name'' (fst p))))"

fun migrate_members :: "(nat \<Rightarrow> string) \<Rightarrow> nat \<Rightarrow> json list \<Rightarrow> error + json list \<times> nat" where
  "migrate_members gen n [] = Inr ([], n)"
| "migrate_members gen n (r # rs) =
     bnd (assign_id gen n r) (\<lambda>p.
     bnd (rename_name (fst p)) (\<lambda>r'.
     bnd (migrate_members gen (snd p) rs) (\<lambda>q. Inr (r' # fst q, snd q))))"

fun migrate_assets :: "(nat \<Rightarrow> string) \<Rightarrow> nat \<Rightarrow> json list \<Rightarrow> error + json list \<times> nat" where
  "migrate_assets gen n [] = Inr ([], n)"
| "migrate_assets gen n (r # rs) =
     bnd (assign_id gen n r) (\<lambda>p.
     bnd (migrate_assets gen (snd p) rs) (\<lambda>q. Inr (fst p # fst q, snd q)))"

text \<open>
  The state of \<^verbatim>\<open>transform_old_data_format\<close>: the store being built, the document
  being read, whose records the loops mutate in place (the records appended to the new
  store are the very objects of the document), and the number of identifiers drawn.
\<close>

record migration =
  new_store :: json
  old_data :: json
  drawn :: nat

text \<open>The loops append to the \<^verbatim>\<open>data\<close> of a section of the new store, which is empty
  before: afterwards it holds the records visited. In the document the list under
  \<open>key\<close> holds the same records.\<close>

definition migrated :: "migration \<Rightarrow> string \<Rightarrow> string \<Rightarrow> json list \<times> nat \<Rightarrow> migration" where
  "migrated st section_title key q =
     \<lparr>new_store = set_data (new_store st) section_title (JArr (fst q)),
      old_data = set_item (old_data st) key (JArr (fst q)),
      drawn = snd q\<rparr>"

definition migrate_member_list :: "(nat \<Rightarrow> string) \<Rightarrow> migration \<Rightarrow> error + migration" where
  "migrate_member_list gen st =
     bnd (py_in ''members'' (old_data st)) (\<lambda>m.
       let old_member_key = (if m then ''members'' else ''family_info'') in
       bnd (py_in old_member_key (old_data st)) (\<lambda>present.
         if \<not> present then Inr st
         else bnd (py_getitem (old_data st) old_member_key) (\<lambda>v.
           case v of
             JArr rs \<Rightarrow>
               bnd (migrate_members gen (drawn st) rs) (\<lambda>q.
                 Inr (migrated st ''family_info'' old_member_key q))
           | _ \<Rightarrow> Inr st)))"

fun migrate_sections :: "(nat \<Rightarrow> string) \<Rightarrow> string list \<Rightarrow> migration \<Rightarrow> error + migration" where
  "migrate_sections gen [] st = Inr st"
| "migrate_sections gen (section_title # rest) st =
     (if section_title = ''family_info'' then migrate_sections gen rest st
      else
        bnd (py_in section_title (old_data st)) (\<lambda>present.
          if \<not> present then migrate_sections gen rest st
          else bnd (py_getitem (old_data st) section_title) (\<lambda>v.
            case v of
              JArr rs \<Rightarrow>
                bnd (migrate_assets gen (drawn st) rs) (\<lambda>q.
                  migrate_sections gen rest (migrated st section_title section_title q))
            | _ \<Rightarrow> migrate_sections gen rest st)))"

definition items :: "json \<Rightarrow> pydict" where
  "items x = (case x of JObj d \<Rightarrow> d | _ \<Rightarrow> [])"

definition transform_old_data_format ::
  "(nat \<Rightarrow> string) \<Rightarrow> nat \<Rightarrow> json \<Rightarrow> error + migration" where
  "transform_old_data_format gen n doc =
     bnd (migrate_member_list gen
            \<lparr>new_store = initialize_data_structures, old_data = doc, drawn = n\<rparr>)
         (migrate_sections gen (map fst (items initialize_data_structures)))"

text \<open>
  The words of the specification for the migration of one record. A migrated member
  record keeps its identifier, or has the fresh one when it had none; when it had
  \<^verbatim>\<open>name\<close> and no \<^verbatim>\<open>Name\<close>, the value is now under \<^verbatim>\<open>Name\<close> and no
  \<^verbatim>\<open>name\<close> is left; every other attribute is as before. A migrated record of another
  category is the record itself, followed by the fresh identifier when it had none.
  \<open>lacking_id\<close> counts the records without an identifier.
\<close>

definition lacking_id :: "pydict list \<Rightarrow> nat" where
  "lacking_id es = length (filter (\<lambda>e. ''id'' \<notin> fst ` set e) es)"

definition member_migrated :: "string \<Rightarrow> pydict \<Rightarrow> pydict \<Rightarrow> bool" where
  "member_migrated fresh e e' \<longleftrightarrow>
     map_of e' ''id'' = (if ''id'' \<in> fst ` set e then map_of e ''id'' else Some (JStr fresh))
   \<and> (''name'' \<in> fst ` set e \<and> ''Name'' \<notin> fst ` set e \<longrightarrow>
        map_of e' ''Name'' = map_of e ''name'' \<and> ''name'' \<notin> fst ` set e')
   \<and> (\<forall>a. a \<noteq> ''id''
          \<and> \<not> (''name'' \<in> fst ` set e \<and> ''Name'' \<notin> fst ` set e \<and> (a = ''name'' \<or> a = ''Name''))
        \<longrightarrow> map_of e' a = map_of e a)"

definition asset_migrated :: "string \<Rightarrow> pydict \<Rightarrow> pydict \<Rightarrow> bool" where
  "asset_migrated fresh e e' \<longleftrightarrow>
     e' = (if ''id'' \<in> fst ` set e then e else e @ [(''id'', JStr fresh)])"

text \<open>
  The words in which the effect of the migration on the document is described below.
  \<open>list_at\<close> is the list under a key of the document, empty when the key is absent or
  holds no list; \<open>member_list_key\<close> is the key whose list the member loop walks through,
  as \<^verbatim>\<open>old_member_key\<close> is chosen. A record has an \<^verbatim>\<open>id\<close> when \<^verbatim>\<open>'id' in rec\<close>
  is true; a member record is complete when it has an \<^verbatim>\<open>id\<close> and does not have
  \<^verbatim>\<open>name\<close> without \<^verbatim>\<open>Name\<close>; a document is complete when the records of its
  member list are complete and the records of the list of every other category of the
  store have an \<^verbatim>\<open>id\<close>.
\<close>

definition list_at :: "pydict \<Rightarrow> string \<Rightarrow> json list" where
  "list_at d k = (case map_of d k of Some (JArr rs) \<Rightarrow> rs | _ \<Rightarrow> [])"

definition member_list_key :: "pydict \<Rightarrow> string" where
  "member_list_key d = (if ''members'' \<in> fst ` set d then ''members'' else ''family_info'')"

definition has_id :: "json \<Rightarrow> bool" where
  "has_id r \<longleftrightarrow> py_in ''id'' r = Inr True"

definition complete_member :: "json \<Rightarrow> bool" where
  "complete_member r \<longleftrightarrow>
     has_id r \<and> (py_in ''name'' r = Inr False \<or> py_in ''Name'' r = Inr True)"

definition complete_document :: "pydict \<Rightarrow> bool" where
  "complete_document d \<longleftrightarrow>
     list_all complete_member (list_at d (member_list_key d))
   \<and> list_all (\<lambda>t. t = ''family_info'' \<or> list_all has_id (list_at d t))
        (map fst (items initialize_data_structures))"

section \<open>Loading a parsed document\<close>

text \<open>
  Both load operations, from the value \<^verbatim>\<open>json.load\<close> returned on. The refresh of the
  views runs inside the \<^verbatim>\<open>try\<close> block, so an exception it raises sends the load to
  the handler; the views are not modelled, and \<open>refresh\<close> is a parameter giving the
  exception they raise on a store, if any.
\<close>

definition is_current_format :: "json \<Rightarrow> error + bool" where
  "is_current_format loaded_data =
     bnd (py_in ''family_info'' loaded_data) (\<lambda>a.
       if \<not> a then Inr False
       else bnd (py_getitem loaded_data ''family_info'') (py_in ''columns''))"

definition is_list_at :: "json \<Rightarrow> string \<Rightarrow> error + bool" where
  "is_list_at loaded_data k =
     bnd (py_in k loaded_data) (\<lambda>a.
       if \<not> a then Inr False
       else bnd (py_getitem loaded_data k) (\<lambda>v. Inr (case v of JArr _ \<Rightarrow> True | _ \<Rightarrow> False)))"

definition is_legacy_format :: "json \<Rightarrow> error + bool" where
  "is_legacy_format loaded_data =
     bnd (is_list_at loaded_data ''members'') (\<lambda>a.
       if a then Inr True else is_list_at loaded_data ''family_info'')"

text \<open>\<^verbatim>\<open>for section, content in self.initialize_data_structures().items():
  if section not in self.data_store: self.data_store[section] = content\<close>\<close>

fun fill_sections :: "pydict \<Rightarrow> json \<Rightarrow> error + json" where
  "fill_sections [] store = Inr store"
| "fill_sections (p # rest) store =
     bnd (py_in (fst p) store) (\<lambda>present.
       if present then fill_sections rest store
       else bnd (py_setitem store (fst p) (snd p)) (fill_sections rest))"

text \<open>\<^verbatim>\<open>load_data_from_file\<close> of \<^verbatim>\<open>investment_catalogue_app.py\<close>: the exception
  reported, if any, and the store afterwards.\<close>

definition adopt_ext :: "(nat \<Rightarrow> string) \<Rightarrow> nat \<Rightarrow> json \<Rightarrow> error + json" where
  "adopt_ext gen n loaded_data =
     bnd (is_current_format loaded_data) (\<lambda>cur.
       if cur then Inr loaded_data
       else bnd (is_legacy_format loaded_data) (\<lambda>leg.
         if leg then bnd (transform_old_data_format gen n loaded_data) (\<lambda>st. Inr (new_store st))
         else Inl ValueError))"

definition load_data_from_file_ext ::
  "(json \<Rightarrow> error option) \<Rightarrow> (nat \<Rightarrow> string) \<Rightarrow> nat \<Rightarrow> json \<Rightarrow> error option \<times> json" where
  "load_data_from_file_ext refresh gen n loaded_data =
     (case bnd (adopt_ext gen n loaded_data) (fill_sections (items initialize_data_structures)) of
        Inl e \<Rightarrow> (Some e, initialize_data_structures)
      | Inr store \<Rightarrow>
          (case refresh store of
             Some e \<Rightarrow> (Some e, initialize_data_structures)
           | None \<Rightarrow> (None, store)))"

text \<open>
  \<^verbatim>\<open>load_data_from_file\<close> of \<^verbatim>\<open>app.py\<close>. Its handler calls \<^verbatim>\<open>new_file\<close>, which
  replaces the store only when the user answers yes to its question; \<open>confirm\<close> is that
  answer and \<open>store\<close> the store before the load.
\<close>

definition new_file :: "json \<Rightarrow> bool \<Rightarrow> json" where
  "new_file store confirm = (if confirm then initialize_data_structures else store)"

definition py_update :: "json \<Rightarrow> json \<Rightarrow> error + json" where
  "py_update x y =
     (case x of
        JObj d \<Rightarrow> (case y of JObj e \<Rightarrow> Inr (JObj (dict_update d e)) | _ \<Rightarrow> Inl TypeError)
      | _ \<Rightarrow> Inl AttributeError)"

definition load_data_from_file_basic ::
  "(json \<Rightarrow> error option) \<Rightarrow> bool \<Rightarrow> json \<Rightarrow> json \<Rightarrow> error option \<times> json" where
  "load_data_from_file_basic refresh confirm store loaded_data =
     (case is_current_format loaded_data of
        Inl e \<Rightarrow> (Some e, new_file store confirm)
      | Inr cur \<Rightarrow>
          if \<not> cur then (Some ValueError, new_file store confirm)
          else
            (case py_update initialize_data_structures loaded_data of
               Inl e \<Rightarrow> (Some e, new_file initialize_data_structures confirm)
             | Inr store' \<Rightarrow>
                 (case refresh store' of
                    Some e \<Rightarrow> (Some e, new_file store' confirm)
                  | None \<Rightarrow> (None, store'))))"

section \<open>Example values\<close>

text \<open>The empty store with the given members and bank accounts, and a sequence of
  identifiers for the generator, for the examples below.\<close>

definition store_with :: "json list \<Rightarrow> json list \<Rightarrow> json" where
  "store_with members accounts =
     set_data (set_data initialize_data_structures ''family_info'' (JArr members))
       ''bank_accounts'' (JArr accounts)"

definition sample_ids :: "nat \<Rightarrow> string" where
  "sample_ids n = ''uuid-'' @ replicate n (CHR ''x'')"

text \<open>A bank account as a file can hold it, with an attribute \<^verbatim>\<open>Branch\<close> that is no
  column of the section, and the data the editor passes when that account is edited: one
  entry per column and the holders selected.\<close>

definition sample_account :: json where
  "sample_account = JObj
     [(''Account Type'', JStr ''Savings''), (''BANK NAME'', JStr ''SBI''),
      (''ACCOUNT NO'', JStr ''1''), (''Branch'', JStr ''Pune''),
      (''holders'', JArr [JStr ''m1'']), (''id'', JStr ''a1'')]"

definition sample_edit :: pydict where
  "sample_edit =
     [(''Account Type'', JStr ''Current''), (''BANK NAME'', JStr ''HDFC''),
      (''ACCOUNT NO'', JStr ''2''), (''holders'', JArr [])]"

text \<open>An older document whose records all carry an identifier, and the member the
  key \<^verbatim>\<open>Name\<close>.\<close>

definition sample_migrated :: pydict where
  "sample_migrated =
     [(''members'', JArr [JObj [(''id'', JStr ''m1''), (''Name'', JStr ''Asha'')]]),
      (''bank_accounts'', JArr [JObj [(''BANK NAME'', JStr ''SBI''), (''id'', JStr ''a1'')]])]"

text \<open>An older document with two members and a bank account.\<close>

definition sample_legacy :: pydict where
  "sample_legacy =
     [(''members'',
         JArr [JObj [(''name'', JStr ''Asha'')],
               JObj [(''id'', JStr ''m2''), (''Name'', JStr ''Ravi''), (''name'', JStr ''ravi'')]]),
      (''bank_accounts'', JArr [JObj [(''BANK NAME'', JStr ''SBI'')]])]"

text \<open>An older document with its member under \<^verbatim>\<open>family_info\<close>, as a bare sequence,
  and a \<^verbatim>\<open>members\<close> entry that is no list.\<close>

definition sample_misfiled :: pydict where
  "sample_misfiled =
     [(''members'', JObj []),
      (''family_info'', JArr [JObj [(''name'', JStr ''Asha'')]])]"

text \<open>A member and a bank account as the editor stores them (one entry per column that
  is no holder column, the holders selected, the identifier), with a holder \<^verbatim>\<open>m1\<close> who
  has been deleted; and the section holding that account.\<close>

definition sample_member :: pydict where
  "sample_member =
     [(''Name'', JStr ''Ravi''), (''Aadhar No.'', JStr []), (''PAN no'', JStr []),
      (''Voter id no'', JStr []), (''id'', JStr ''m2'')]"

definition sample_entered :: pydict where
  "sample_entered =
     [(''Account Type'', JStr ''Savings''), (''BANK NAME'', JStr ''SBI''),
      (''ACCOUNT NO'', JStr ''1''), (''holders'', JArr [JStr ''m1'', JStr ''m2'']),
      (''id'', JStr ''a1'')]"


text \<open>A vehicle as a file can hold it, with an attribute named like the holder column
  of its category.\<close>

definition sample_vehicle :: pydict where
  "sample_vehicle =
     [(''Owners'', JStr ''Asha''), (''VEHICLE MAKE'', JStr ''Maruti''),
      (''holders'', JArr [JStr ''m2'']), (''id'', JStr ''v1'')]"

text \<open>A bank account as a file can hold it, naming the same holder twice, and the same
  account with the first of the two removed.\<close>

definition sample_joint :: pydict where
  "sample_joint =
     [(''Account Type'', JStr ''Savings''), (''BANK NAME'', JStr ''SBI''),
      (''ACCOUNT NO'', JStr ''1''), (''holders'', JArr [JStr ''m2'', JStr ''m2'']),
      (''id'', JStr ''a1'')]"

definition sample_joint_after :: pydict where
  "sample_joint_after =
     [(''Account Type'', JStr ''Savings''), (''BANK NAME'', JStr ''SBI''),
      (''ACCOUNT NO'', JStr ''1''), (''holders'', JArr [JStr ''m2'']),
      (''id'', JStr ''a1'')]"

section \<open>Basic facts\<close>

lemma bnd_Inr [simp]: "bnd (Inr x) f = f x"
  by (simp add: bnd_def)

lemma bnd_Inl [simp]: "bnd (Inl e) f = Inl e"
  by (simp add: bnd_def)

lemma py_eq_JStr [simp]: "py_eq v (JStr s) \<longleftrightarrow> v = JStr s"
  by (cases v) auto

lemma py_eq_JStr_left [simp]: "py_eq (JStr s) v \<longleftrightarrow> v = JStr s"
  by (cases v) auto

lemma bnd_eq_Inr: "bnd r f = Inr y \<longleftrightarrow> (\<exists>x. r = Inr x \<and> f x = Inr y)"
  by (cases r) simp_all

lemma get_member_by_id_None:
  "get_member_by_id store i = Inr None \<longleftrightarrow>
     (\<exists>ms. records_of store ''family_info'' = Inr ms \<and> find_by_id ms i = Inr None)"
  unfolding get_member_by_id_def
  by (auto simp: bnd_eq_Inr)

section \<open>Updating a record that does not exist\<close>

text \<open>
  C2 (as stated): \<^verbatim>\<open>updateMember(id, fields)\<close> fails with \<^verbatim>\<open>NotFound\<close> when no
  member has the identifier, and \<^verbatim>\<open>updateAsset\<close> likewise, the error being surfaced.
  The save callbacks do not: with an identifier that no record carries, both return
  normally and leave the store as it was. Here on the empty store.
\<close>

theorem update_absent_not_reported:
  "save_member initialize_data_structures [(''Name'', JStr ''Asha'')] (Some ''ghost'') ''u1''
     = Inr initialize_data_structures
   \<and> save_asset initialize_data_structures ''bank_accounts'' [(''BANK NAME'', JStr ''SBI'')]
       (Some ''ghost'') ''u1'' = Inr initialize_data_structures"
  by (simp add: save_member_def save_asset_def records_of_def initialize_data_structures_def
      section_of_def)

text \<open>
  C2 (amended): when no member carries the identifier \<open>i\<close>, \<^verbatim>\<open>save_member\<close> returns
  normally with the store unchanged, and so does \<^verbatim>\<open>save_asset\<close> when no record of the
  category carries it: the call does nothing and reports nothing.
\<close>

theorem update_absent_is_silent:
  assumes "i \<noteq> []"
  shows "(get_member_by_id store (JStr i) = Inr None \<longrightarrow>
            save_member store new_data (Some i) fresh = Inr store)
       \<and> (records_of store category = Inr recs \<and> find_by_id recs (JStr i) = Inr None \<longrightarrow>
            save_asset store category new_data (Some i) fresh = Inr store)"
proof -
  obtain c cs where i: "i = c # cs" using assms by (cases i) auto
  show ?thesis
    by (auto simp: i get_member_by_id_None save_member_def save_asset_def)
qed

theorem update_absent_is_silent_witness:
  "''m9'' \<noteq> []
   \<and> get_member_by_id (store_with [JObj [(''Name'', JStr ''Asha''), (''id'', JStr ''m1'')]] [])
        (JStr ''m9'') = Inr None
   \<and> save_member (store_with [JObj [(''Name'', JStr ''Asha''), (''id'', JStr ''m1'')]] [])
        [(''Name'', JStr ''Ravi'')] (Some ''m9'') ''u1''
       = Inr (store_with [JObj [(''Name'', JStr ''Asha''), (''id'', JStr ''m1'')]] [])
   \<and> records_of (store_with [JObj [(''Name'', JStr ''Asha''), (''id'', JStr ''m1'')]] [])
        ''bank_accounts'' = Inr []
   \<and> find_by_id [] (JStr ''m9'') = Inr None
   \<and> save_asset (store_with [JObj [(''Name'', JStr ''Asha''), (''id'', JStr ''m1'')]] [])
        ''bank_accounts'' [(''Name'', JStr ''Ravi'')] (Some ''m9'') ''u1''
       = Inr (store_with [JObj [(''Name'', JStr ''Asha''), (''id'', JStr ''m1'')]] [])"
proof -
  have h0: "''m9'' \<noteq> []" by simp
  have h1: "get_member_by_id (store_with [JObj [(''Name'', JStr ''Asha''), (''id'', JStr ''m1'')]] [])
        (JStr ''m9'') = Inr None"
    by code_simp
  have h2: "records_of (store_with [JObj [(''Name'', JStr ''Asha''), (''id'', JStr ''m1'')]] [])
        ''bank_accounts'' = Inr []"
    by code_simp
  have h3: "find_by_id [] (JStr ''m9'') = Inr None" by simp
  show ?thesis
    using update_absent_is_silent [OF h0,
        of "store_with [JObj [(''Name'', JStr ''Asha''), (''id'', JStr ''m1'')]] []"
           "[(''Name'', JStr ''Ravi'')]" "''u1''" "''bank_accounts''" "[]"]
      h1 h2 h3
    by simp
qed

section \<open>Dicts and the records of a section\<close>

lemma map_of_dict_set: "map_of (dict_set d k v) = (map_of d)(k \<mapsto> v)"
  by (simp add: dict_set_def update_conv')

lemma keys_dict_set: "fst ` set (dict_set d k v) = insert k (fst ` set d)"
  by (simp add: dict_set_def dom_update)

lemma dict_set_absent: "k \<notin> fst ` set d \<Longrightarrow> dict_set d k v = d @ [(k, v)]"
  unfolding dict_set_def by (induction d) auto

lemma map_of_dict_pop: "map_of (dict_pop d k) = (map_of d)(k := None)"
  by (simp add: dict_pop_def delete_conv')

lemma keys_dict_pop: "fst ` set (dict_pop d k) = fst ` set d - {k}"
  unfolding dict_pop_def by (induction d) auto

lemma dict_update_Cons: "dict_update d (p # e) = dict_update (dict_set d (fst p) (snd p)) e"
  by (simp add: dict_update_def)

lemma map_of_dict_update:
  "map_of (dict_update d e) k = (case map_of (rev e) k of None \<Rightarrow> map_of d k | Some v \<Rightarrow> Some v)"
proof (induction e arbitrary: d)
  case Nil
  then show ?case by (simp add: dict_update_def)
next
  case (Cons p e)
  show ?case
    by (cases "map_of (rev e) k")
       (simp_all add: dict_update_Cons Cons.IH map_of_dict_set map_add_def)
qed

lemma find_by_id_SomeD:
  "find_by_id recs (JStr i) = Inr (Some k) \<Longrightarrow>
     k < length recs \<and> (\<exists>d. recs ! k = JObj d \<and> map_of d ''id'' = Some (JStr i))"
proof (induction recs arbitrary: k)
  case Nil
  then show ?case by simp
next
  case (Cons m ms)
  from Cons.prems obtain v where v: "py_get m ''id'' JNull = Inr v"
    and rest: "(if v = JStr i then Inr (Some 0)
                else bnd (find_by_id ms (JStr i)) (\<lambda>r. Inr (map_option Suc r))) = Inr (Some k)"
    by (auto simp: bnd_eq_Inr)
  show ?case
  proof (cases "v = JStr i")
    case True
    with rest have "k = 0" by simp
    moreover from v True obtain d where "m = JObj d" "map_of d ''id'' = Some (JStr i)"
      by (cases m) (auto split: option.splits)
    ultimately show ?thesis by simp
  next
    case False
    with rest obtain k' where "find_by_id ms (JStr i) = Inr (Some k')" "k = Suc k'"
      by (auto simp: bnd_eq_Inr)
    with Cons.IH[of k'] show ?thesis by auto
  qed
qed

lemma py_iter_has_dict:
  "py_iter data = Inr recs \<Longrightarrow> k < length recs \<Longrightarrow> recs ! k = JObj d \<Longrightarrow> data = JArr recs"
  by (cases data) auto

lemma records_of_shape:
  assumes "records_of store sec = Inr recs" "k < length recs" "recs ! k = JObj d"
  shows "\<exists>sd c. store = JObj sd \<and> map_of sd sec = Some (JObj c)
           \<and> map_of c ''data'' = Some (JArr recs)"
proof -
  from assms(1) obtain content data where c: "py_getitem store sec = Inr content"
    and d: "py_getitem content ''data'' = Inr data" and i: "py_iter data = Inr recs"
    by (auto simp: records_of_def bnd_eq_Inr)
  from i assms(2,3) have "data = JArr recs" by (rule py_iter_has_dict)
  moreover from c obtain sd where "store = JObj sd" "map_of sd sec = Some content"
    by (cases store) (auto split: option.splits)
  moreover from d obtain cc where "content = JObj cc" "map_of cc ''data'' = Some data"
    by (cases content) (auto split: option.splits)
  ultimately show ?thesis by auto
qed

lemma records_of_set_data:
  assumes "store = JObj sd" "map_of sd sec = Some (JObj c)"
  shows "records_of (set_data store sec (JArr rs)) sec = Inr rs"
  using assms by (simp add: set_data_def records_of_def map_of_dict_set)

section \<open>Editing an asset\<close>

text \<open>
  C3 (as stated): \<^verbatim>\<open>updateAsset\<close> fully replaces the asset's field map and holders, so
  that attributes of the old record that are not among the given fields do not survive.
  \<^verbatim>\<open>save_asset\<close> calls \<^verbatim>\<open>asset.update(new_data)\<close>, which merges: the account below
  keeps its \<^verbatim>\<open>Branch\<close> when it is edited with the data of the editor.
\<close>

theorem update_asset_keeps_other_attributes:
  "save_asset (store_with [] [sample_account]) ''bank_accounts'' sample_edit (Some ''a1'') ''u1''
     = Inr (store_with []
         [JObj [(''Account Type'', JStr ''Current''), (''BANK NAME'', JStr ''HDFC''),
                (''ACCOUNT NO'', JStr ''2''), (''Branch'', JStr ''Pune''),
                (''holders'', JArr []), (''id'', JStr ''a1'')]])"
  by code_simp

text \<open>
  C3 (amended): for an existing asset identifier, \<^verbatim>\<open>save_asset\<close> merges the given data
  into the record found (the first of the category with that identifier): every given
  attribute, \<^verbatim>\<open>holders\<close> among them, takes the given value, and every attribute of the
  old record that is not among the given ones survives unchanged, the identifier among
  them when the data gives none. The other records of the category are untouched.
\<close>

theorem update_asset_merges:
  assumes recs: "records_of store category = Inr recs"
      and found: "find_by_id recs (JStr i) = Inr (Some k)"
      and i: "i \<noteq> []"
      and dist: "distinct (map fst new_data)"
  shows "\<exists>d d' store'.
           recs ! k = JObj d
         \<and> save_asset store category new_data (Some i) fresh = Inr store'
         \<and> records_of store' category = Inr (recs[k := JObj d'])
         \<and> (\<forall>a v. (a, v) \<in> set new_data \<longrightarrow> map_of d' a = Some v)
         \<and> (\<forall>a. a \<notin> fst ` set new_data \<longrightarrow> map_of d' a = map_of d a)
         \<and> (''id'' \<notin> fst ` set new_data \<longrightarrow> map_of d' ''id'' = Some (JStr i))"
proof -
  from find_by_id_SomeD[OF found] obtain d where k: "k < length recs"
    and d: "recs ! k = JObj d" and idd: "map_of d ''id'' = Some (JStr i)" by auto
  from records_of_shape[OF recs k d] obtain sd c where sh: "store = JObj sd"
    "map_of sd category = Some (JObj c)" by auto
  obtain ch cs where ich: "i = ch # cs" using i by (cases i) auto
  from idd have ne: "d \<noteq> []" by auto
  let ?d' = "dict_update d new_data"
  let ?store' = "set_data store category (JArr (recs[k := JObj ?d']))"
  have sv: "save_asset store category new_data (Some i) fresh = Inr ?store'"
    using recs found d ne unfolding ich by (simp add: save_asset_def update_found_def)
  have r: "records_of ?store' category = Inr (recs[k := JObj ?d'])"
    using sh by (rule records_of_set_data)
  have m1: "\<forall>a v. (a, v) \<in> set new_data \<longrightarrow> map_of ?d' a = Some v"
  proof (intro allI impI)
    fix a v assume "(a, v) \<in> set new_data"
    with dist have "map_of (rev new_data) a = Some v"
      by (intro map_of_is_SomeI) (simp_all add: rev_map[symmetric])
    then show "map_of ?d' a = Some v" by (simp add: map_of_dict_update)
  qed
  have m2: "\<forall>a. a \<notin> fst ` set new_data \<longrightarrow> map_of ?d' a = map_of d a"
  proof (intro allI impI)
    fix a assume "a \<notin> fst ` set new_data"
    then have "map_of (rev new_data) a = None" by (simp add: map_of_eq_None_iff)
    then show "map_of ?d' a = map_of d a" by (simp add: map_of_dict_update)
  qed
  from m2 idd have m3: "''id'' \<notin> fst ` set new_data \<longrightarrow> map_of ?d' ''id'' = Some (JStr i)"
    by simp
  from d sv r m1 m2 m3 show ?thesis by blast
qed

theorem update_asset_merges_witness:
  "records_of (store_with [] [sample_account]) ''bank_accounts'' = Inr [sample_account]
   \<and> find_by_id [sample_account] (JStr ''a1'') = Inr (Some 0)
   \<and> ''a1'' \<noteq> []
   \<and> distinct (map fst sample_edit)
   \<and> (\<exists>d d' store'.
           [sample_account] ! 0 = JObj d
         \<and> save_asset (store_with [] [sample_account]) ''bank_accounts'' sample_edit
              (Some ''a1'') ''u1'' = Inr store'
         \<and> records_of store' ''bank_accounts'' = Inr ([sample_account][0 := JObj d'])
         \<and> (\<forall>a v. (a, v) \<in> set sample_edit \<longrightarrow> map_of d' a = Some v)
         \<and> (\<forall>a. a \<notin> fst ` set sample_edit \<longrightarrow> map_of d' a = map_of d a)
         \<and> (''id'' \<notin> fst ` set sample_edit \<longrightarrow> map_of d' ''id'' = Some (JStr ''a1'')))"
proof -
  have h1: "records_of (store_with [] [sample_account]) ''bank_accounts'' = Inr [sample_account]"
    by code_simp
  have h2: "find_by_id [sample_account] (JStr ''a1'') = Inr (Some 0)"
    by code_simp
  have h3: "''a1'' \<noteq> []" by simp
  have h4: "distinct (map fst sample_edit)" by code_simp
  from update_asset_merges [OF h1 h2 h3 h4, of "''u1''"] h1 h2 h3 h4
  show ?thesis by blast
qed

section \<open>The filter\<close>

lemma bnd_assoc: "bnd (bnd r f) g = bnd r (\<lambda>x. bnd (f x) g)"
  by (cases r) simp_all

lemma sublist_iff_take_drop:
  "sublist xs ys \<longleftrightarrow> (\<exists>i\<le>length ys. take (length xs) (drop i ys) = xs)"
proof
  assume "sublist xs ys"
  then obtain ps ss where ys: "ys = ps @ xs @ ss" by (auto simp: sublist_def)
  then have "length ps \<le> length ys" "take (length xs) (drop (length ps) ys) = xs" by simp_all
  then show "\<exists>i\<le>length ys. take (length xs) (drop i ys) = xs" by blast
next
  assume "\<exists>i\<le>length ys. take (length xs) (drop i ys) = xs"
  then obtain i where i: "take (length xs) (drop i ys) = xs" by blast
  have "ys = take i ys @ take (length xs) (drop i ys) @ drop (length xs) (drop i ys)"
    by (simp only: append_take_drop_id)
  with i have "ys = take i ys @ xs @ drop (length xs) (drop i ys)" by simp
  then show "sublist xs ys" unfolding sublist_def by blast
qed

lemma ci_contains_iff:
  "ci_contains txt term \<longleftrightarrow>
     (\<exists>i\<le>length txt. ascii_lower (take (length term) (drop i txt)) = ascii_lower term)"
proof -
  have "set [0 ..< Suc (length txt)] = {i. i \<le> length txt}" by auto
  then show ?thesis unfolding ci_contains_def list_ex_iff by blast
qed

lemma lowered_sublist_iff:
  "sublist (ascii_lower term) (ascii_lower txt) \<longleftrightarrow> ci_contains txt term"
  by (simp add: sublist_iff_take_drop ci_contains_iff ascii_lower_def take_map drop_map)

lemma filter_treeview_alt:
  "filter_treeview lower repr store category typed =
     bnd (records_of store category) (\<lambda>recs.
       if lower typed = [] then Inr recs else filter_records lower repr (lower typed) recs)"
proof -
  have "\<And>x. (if lower typed = [] then py_iter x
             else bnd (py_iter x) (filter_records lower repr (lower typed)))
        = bnd (py_iter x) (\<lambda>recs. if lower typed = [] then Inr recs
                                   else filter_records lower repr (lower typed) recs)"
    by (case_tac "py_iter x") simp_all
  then show ?thesis
    by (simp add: filter_treeview_def records_of_def bnd_assoc Let_def)
qed

lemma filter_records_dicts:
  "filter_records lower repr t (map JObj ds) =
     Inr (map JObj (filter (\<lambda>d. \<exists>v\<in>set (map snd d). sublist t (lower (py_str repr v))) ds))"
  by (induction ds) (simp_all add: record_matches_def list_ex_iff)

text \<open>On text of ASCII characters, where \<^verbatim>\<open>str.lower\<close> is \<^const>\<open>ascii_lower\<close>, the
  records shown are those with a value that contains the term case-insensitively.\<close>

lemma filter_treeview_ascii:
  assumes "records_of store category = Inr (map JObj ds)"
      and "typed \<noteq> []"
      and "lower typed = ascii_lower typed"
      and "\<forall>d\<in>set ds. \<forall>v\<in>set (map snd d). lower (py_str repr v) = ascii_lower (py_str repr v)"
  shows "filter_treeview lower repr store category typed =
           Inr (map JObj
             (filter (\<lambda>d. \<exists>v\<in>set (map snd d). ci_contains (py_str repr v) typed) ds))"
proof -
  have ne: "lower typed \<noteq> []" using assms(2,3) by (simp add: ascii_lower_def)
  have "filter (\<lambda>d. \<exists>v\<in>set (map snd d). sublist (lower typed) (lower (py_str repr v))) ds
      = filter (\<lambda>d. \<exists>v\<in>set (map snd d). ci_contains (py_str repr v) typed) ds"
  proof (rule filter_cong[OF refl])
    fix d assume d: "d \<in> set ds"
    have "\<And>v. v \<in> set (map snd d) \<Longrightarrow>
            sublist (lower typed) (lower (py_str repr v)) = ci_contains (py_str repr v) typed"
    proof -
      fix v assume "v \<in> set (map snd d)"
      with assms(4) d have "lower (py_str repr v) = ascii_lower (py_str repr v)" by blast
      then show "sublist (lower typed) (lower (py_str repr v)) = ci_contains (py_str repr v) typed"
        by (simp add: assms(3) lowered_sublist_iff)
    qed
    then show "(\<exists>v\<in>set (map snd d). sublist (lower typed) (lower (py_str repr v)))
             = (\<exists>v\<in>set (map snd d). ci_contains (py_str repr v) typed)"
      by blast
  qed
  with ne show ?thesis
    by (simp add: filter_treeview_alt assms(1) filter_records_dicts)
qed

text \<open>
  C7, the claim as it is worded, fails: a member is named by the Greek word above, whose
  last letter is the capital sigma, and the search term is that capital sigma. The name
  contains the term as it stands, so it contains it whatever the case of letters; yet
  \<^verbatim>\<open>filter_treeview\<close> shows no record, because \<^verbatim>\<open>str.lower\<close> ends the lowered name
  in the final small sigma and turns the term into the medial one.
\<close>

theorem filter_misses_capital_sigma:
  "records_of (store_with [JObj [(''Name'', JStr greek_odos), (''id'', JStr ''m1'')]] [])
     ''family_info''
     = Inr [JObj [(''Name'', JStr greek_odos), (''id'', JStr ''m1'')]]
   \<and> greek_sigma \<noteq> []
   \<and> greek_odos = take 3 greek_odos @ greek_sigma
   \<and> sublist greek_sigma (py_str (\<lambda>v. []) (JStr greek_odos))
   \<and> filter_treeview sample_lower (\<lambda>v. [])
       (store_with [JObj [(''Name'', JStr greek_odos), (''id'', JStr ''m1'')]] [])
       ''family_info'' greek_sigma
     = Inr []"
proof -
  have a: "records_of (store_with [JObj [(''Name'', JStr greek_odos), (''id'', JStr ''m1'')]] [])
     ''family_info''
     = Inr (map JObj [[(''Name'', JStr greek_odos), (''id'', JStr ''m1'')]])"
    by code_simp
  have b: "greek_sigma \<noteq> []" by (simp add: greek_sigma_def)
  have c: "greek_odos = take 3 greek_odos @ greek_sigma"
    by (simp add: greek_odos_def greek_sigma_def)
  have d: "sublist greek_sigma (py_str (\<lambda>v. []) (JStr greek_odos))"
    unfolding py_str_def sublist_def using c by (simp, metis append_Nil2)
  have l: "sample_lower greek_sigma = [CHR 0xF3]"
    by (simp add: sample_lower_def greek_sigma_def greek_odos_def)
  have m: "sample_lower greek_odos = [CHR 0xEF, CHR 0xE4, CHR 0xEF, CHR 0xF2]"
    by (simp add: sample_lower_def)
  have n: "sample_lower ''m1'' = ''m1''"
    by (simp add: sample_lower_def greek_sigma_def greek_odos_def ascii_lower_def
        ascii_lower_char_def)
  have s1: "\<not> sublist [CHR 0xF3] [CHR 0xEF, CHR 0xE4, CHR 0xEF, CHR 0xF2]"
    by (simp add: sublist_Cons_right prefix_Cons)
  have s2: "\<not> sublist [CHR 0xF3] ''m1''"
    by (simp add: sublist_Cons_right prefix_Cons)
  have e: "filter_treeview sample_lower (\<lambda>v. [])
       (store_with [JObj [(''Name'', JStr greek_odos), (''id'', JStr ''m1'')]] [])
       ''family_info'' greek_sigma
     = Inr []"
    by (simp add: filter_treeview_alt a record_matches_def l m n s1 s2 py_str_def)
  from a b c d e show ?thesis by simp
qed

text \<open>
  C7, amended: with an empty search box \<^verbatim>\<open>filter_treeview\<close> shows all the records of
  the category, in the order of the store; with a search term it shows exactly the
  records one of whose stored values (whatever its key, \<^verbatim>\<open>id\<close> and \<^verbatim>\<open>holders\<close>
  included) has a string representation whose lowered form, as \<^verbatim>\<open>str.lower\<close> gives
  it, contains the lowered search term, in the order of the store. What is shown is a
  subsequence of the records of the category. The records of the category are dicts, as
  every record the program or a well-formed file puts there, and \<^verbatim>\<open>str.lower\<close> maps
  the empty string, and no other, to the empty string.
\<close>

theorem filter_treeview_spec:
  assumes "records_of store category = Inr (map JObj ds)"
      and "\<forall>s. (lower s = []) = (s = [])"
  shows "filter_treeview lower repr store category [] = Inr (map JObj ds)
       \<and> (typed \<noteq> [] \<longrightarrow>
            filter_treeview lower repr store category typed =
              Inr (map JObj
                (filter (\<lambda>d. \<exists>v\<in>set (map snd d).
                          sublist (lower typed) (lower (py_str repr v))) ds)))
       \<and> (\<exists>shown. filter_treeview lower repr store category typed = Inr shown
              \<and> subseq shown (map JObj ds))"
proof -
  have a: "filter_treeview lower repr store category [] = Inr (map JObj ds)"
    by (simp add: filter_treeview_alt assms)
  have b: "filter_treeview lower repr store category typed =
              Inr (map JObj
                (filter (\<lambda>d. \<exists>v\<in>set (map snd d).
                          sublist (lower typed) (lower (py_str repr v))) ds))"
    if "typed \<noteq> []"
    using that by (simp add: filter_treeview_alt assms filter_records_dicts)
  have c: "\<exists>shown. filter_treeview lower repr store category typed = Inr shown
              \<and> subseq shown (map JObj ds)"
  proof (cases "typed = []")
    case True
    with a show ?thesis by auto
  next
    case False
    from b[OF False] show ?thesis by (auto intro!: subseq_map)
  qed
  from a b c show ?thesis by blast
qed

theorem filter_treeview_spec_witness:
  "records_of
     (store_with [JObj [(''Name'', JStr ''Asha''), (''id'', JStr ''m1'')],
                  JObj [(''Name'', JStr ''Ravi''), (''id'', JStr ''m2'')]] [])
     ''family_info''
     = Inr (map JObj [[(''Name'', JStr ''Asha''), (''id'', JStr ''m1'')],
                      [(''Name'', JStr ''Ravi''), (''id'', JStr ''m2'')]])
   \<and> (\<forall>s. (sample_lower s = []) = (s = []))
   \<and> ''ASH'' \<noteq> []
   \<and> filter_treeview sample_lower (\<lambda>v. [])
       (store_with [JObj [(''Name'', JStr ''Asha''), (''id'', JStr ''m1'')],
                    JObj [(''Name'', JStr ''Ravi''), (''id'', JStr ''m2'')]] [])
       ''family_info'' ''ASH''
     = Inr [JObj [(''Name'', JStr ''Asha''), (''id'', JStr ''m1'')]]"
proof -
  have h: "records_of
     (store_with [JObj [(''Name'', JStr ''Asha''), (''id'', JStr ''m1'')],
                  JObj [(''Name'', JStr ''Ravi''), (''id'', JStr ''m2'')]] [])
     ''family_info''
     = Inr (map JObj [[(''Name'', JStr ''Asha''), (''id'', JStr ''m1'')],
                      [(''Name'', JStr ''Ravi''), (''id'', JStr ''m2'')]])"
    by code_simp
  have l: "\<forall>s. (sample_lower s = []) = (s = [])"
    by (simp add: sample_lower_def greek_sigma_def greek_odos_def ascii_lower_def)
  have e1: "sample_lower ''ASH'' = ''ash''" "sample_lower ''Asha'' = ''asha''"
    "sample_lower ''Ravi'' = ''ravi''" "sample_lower ''m1'' = ''m1''"
    "sample_lower ''m2'' = ''m2''"
    by code_simp+
  have e2: "sublist ''ash'' ''asha''" "\<not> sublist ''ash'' ''m1''"
    "\<not> sublist ''ash'' ''ravi''" "\<not> sublist ''ash'' ''m2''"
    by (simp_all add: sublist_Cons_right prefix_Cons)
  have e: "filter (\<lambda>d. \<exists>v\<in>set (map snd d).
                    sublist (sample_lower ''ASH'') (sample_lower (py_str (\<lambda>v. []) v)))
             [[(''Name'', JStr ''Asha''), (''id'', JStr ''m1'')],
              [(''Name'', JStr ''Ravi''), (''id'', JStr ''m2'')]]
           = [[(''Name'', JStr ''Asha''), (''id'', JStr ''m1'')]]"
    by (simp add: py_str_def e1 e2)
  have n: "''ASH'' \<noteq> []" by simp
  from filter_treeview_spec [OF h l, of "\<lambda>v. []" "''ASH''"] n e h l
  show ?thesis by simp
qed

section \<open>Migration and the source document\<close>

lemma set_item_same: "map_of d k = Some v \<Longrightarrow> set_item (JObj d) k v = JObj d"
  by (simp add: set_item_def dict_set_def update_triv)

lemma py_getitem_JObj: "map_of d k = Some v \<Longrightarrow> py_getitem (JObj d) k = Inr v"
  by simp

lemma assign_id_present: "py_in ''id'' r = Inr True \<Longrightarrow> assign_id gen n r = Inr (r, n)"
  by (simp add: assign_id_def)

lemma rename_name_noop:
  "py_in ''name'' r = Inr False \<or> py_in ''Name'' r = Inr True \<Longrightarrow> py_in ''id'' r = Inr True
     \<Longrightarrow> rename_name r = Inr r"
  by (cases r) (auto simp: rename_name_def)

lemma migrate_members_noop:
  "\<forall>r\<in>set rs. py_in ''id'' r = Inr True
      \<and> (py_in ''name'' r = Inr False \<or> py_in ''Name'' r = Inr True)
   \<Longrightarrow> migrate_members gen n rs = Inr (rs, n)"
  by (induction rs) (simp_all add: assign_id_present rename_name_noop)

lemma migrate_assets_noop:
  "\<forall>r\<in>set rs. py_in ''id'' r = Inr True \<Longrightarrow> migrate_assets gen n rs = Inr (rs, n)"
  by (induction rs) (simp_all add: assign_id_present)

lemma migrate_sections_noop:
  assumes "old_data st = JObj d"
    and "\<forall>t\<in>set ts. \<forall>rs. t \<noteq> ''family_info'' \<and> map_of d t = Some (JArr rs)
           \<longrightarrow> (\<forall>r\<in>set rs. py_in ''id'' r = Inr True)"
  shows "\<exists>st'. migrate_sections gen ts st = Inr st' \<and> old_data st' = JObj d
           \<and> drawn st' = drawn st"
  using assms
proof (induction ts arbitrary: st)
  case Nil
  then show ?case by simp
next
  case (Cons t ts)
  note od = Cons.prems(1)
  have rest: "\<forall>t\<in>set ts. \<forall>rs. t \<noteq> ''family_info'' \<and> map_of d t = Some (JArr rs)
           \<longrightarrow> (\<forall>r\<in>set rs. py_in ''id'' r = Inr True)"
    using Cons.prems(2) by simp
  show ?case
  proof (cases "t = ''family_info'' \<or> t \<notin> set (map fst d)")
    case True
    with Cons.IH[OF od rest] show ?thesis by (auto simp: od)
  next
    case False
    then obtain v where v: "map_of d t = Some v"
      by (cases "map_of d t") (auto simp: map_of_eq_None_iff)
    show ?thesis
    proof (cases "\<exists>rs. v = JArr rs")
      case True
      then obtain rs where rs: "v = JArr rs" by blast
      with Cons.prems(2) v False have "\<forall>r\<in>set rs. py_in ''id'' r = Inr True" by simp
      then have m: "migrate_assets gen (drawn st) rs = Inr (rs, drawn st)"
        by (rule migrate_assets_noop)
      let ?st = "migrated st t t (rs, drawn st)"
      have o: "old_data ?st = JObj d" "drawn ?st = drawn st"
        using v rs by (simp_all add: migrated_def od set_item_same)
      from Cons.IH[OF o(1) rest] o(2) False v rs m show ?thesis
        by (simp add: od)
    next
      case notarr: False
      with Cons.IH[OF od rest] False v show ?thesis
        by (cases v) (simp_all add: od)
    qed
  qed
qed

lemma migrate_member_list_noop:
  assumes "\<forall>rs. map_of d (if ''members'' \<in> fst ` set d then ''members'' else ''family_info'')
              = Some (JArr rs)
         \<longrightarrow> (\<forall>r\<in>set rs. py_in ''id'' r = Inr True
                \<and> (py_in ''name'' r = Inr False \<or> py_in ''Name'' r = Inr True))"
    and "old_data st = JObj d"
  shows "\<exists>st'. migrate_member_list gen st = Inr st' \<and> old_data st' = JObj d
           \<and> drawn st' = drawn st"
proof -
  define k where "k = (if ''members'' \<in> fst ` set d then ''members'' else ''family_info'')"
  have unf: "migrate_member_list gen st =
       (if k \<notin> fst ` set d then Inr st
        else bnd (py_getitem (JObj d) k) (\<lambda>v.
           case v of
             JArr rs \<Rightarrow>
               bnd (migrate_members gen (drawn st) rs) (\<lambda>q. Inr (migrated st ''family_info'' k q))
           | _ \<Rightarrow> Inr st))"
    by (simp add: migrate_member_list_def assms(2) k_def)
  show ?thesis
  proof (cases "map_of d k")
    case None
    then have "k \<notin> fst ` set d" by (simp add: map_of_eq_None_iff)
    then show ?thesis by (simp add: unf assms(2))
  next
    case (Some v)
    then have kin: "k \<in> fst ` set d" by (metis map_of_eq_None_iff option.distinct(1))
    show ?thesis
    proof (cases v)
      case (JArr rs)
      with assms(1) Some have "\<forall>r\<in>set rs. py_in ''id'' r = Inr True
                \<and> (py_in ''name'' r = Inr False \<or> py_in ''Name'' r = Inr True)"
        by (simp add: k_def)
      then have "migrate_members gen (drawn st) rs = Inr (rs, drawn st)"
        by (rule migrate_members_noop)
      with Some JArr kin show ?thesis
        by (simp add: unf migrated_def assms(2) set_item_same)
    qed (use Some kin in \<open>simp_all add: unf assms(2)\<close>)
  qed
qed

text \<open>
  C5 (as stated): migration never mutates the source document. The loops of
  \<^verbatim>\<open>transform_old_data_format\<close> assign \<^verbatim>\<open>member_record['id']\<close> and move
  \<^verbatim>\<open>name\<close> to \<^verbatim>\<open>Name\<close> on the records of the document itself, before appending
  those same objects to the new store. After migrating the document
  \<^verbatim>\<open>{"members": [{"name": "Asha"}]}\<close> its member record has changed.
\<close>

theorem migration_mutates_source_document:
  "map_sum id old_data
     (transform_old_data_format sample_ids 0
        (JObj [(''members'', JArr [JObj [(''name'', JStr ''Asha'')]])]))
   = Inr (JObj [(''members'', JArr [JObj [(''id'', JStr ''uuid-''), (''Name'', JStr ''Asha'')]])])"
  by code_simp

lemma assign_id_changes:
  assumes "assign_id gen n r = Inr (r', n')"
  shows "(r' = r \<longleftrightarrow> has_id r) \<and> has_id r'"
proof (cases "py_in ''id'' r = Inr True")
  case True
  with assms show ?thesis by (simp add: assign_id_def has_id_def)
next
  case False
  with assms obtain e where e: "r = JObj e" "''id'' \<notin> fst ` set e"
      "r' = JObj (dict_set e ''id'' (JStr (gen n)))"
    by (cases r) (auto simp: assign_id_def py_setitem_def split: if_splits)
  have "''id'' \<in> fst ` set (dict_set e ''id'' (JStr (gen n)))" by (simp add: keys_dict_set)
  with e have "r' \<noteq> r" by auto
  with e False show ?thesis by (simp add: has_id_def keys_dict_set)
qed

lemma rename_name_changes:
  assumes "rename_name r = Inr r'"
  shows "(r' = r \<longleftrightarrow> py_in ''name'' r = Inr False \<or> py_in ''Name'' r = Inr True)
       \<and> (has_id r \<longrightarrow> has_id r')"
proof (cases "py_in ''name'' r = Inr False \<or> py_in ''Name'' r = Inr True")
  case True
  with assms have "r' = r" by (cases r) (auto simp: rename_name_def split: if_splits)
  with True show ?thesis by simp
next
  case False
  with assms obtain e v where e: "r = JObj e" "''name'' \<in> fst ` set e" "''Name'' \<notin> fst ` set e"
      "r' = JObj (dict_set (dict_pop e ''name'') ''Name'' v)"
    by (cases r) (auto simp: rename_name_def py_pop_def py_setitem_def bnd_eq_Inr
        split: if_splits option.splits)
  have "''Name'' \<in> fst ` set (dict_set (dict_pop e ''name'') ''Name'' v)"
    by (simp add: keys_dict_set)
  with e have "r' \<noteq> r" by auto
  moreover have "has_id r \<longrightarrow> has_id r'"
    using e by (auto simp: has_id_def keys_dict_set keys_dict_pop)
  ultimately show ?thesis using False by simp
qed

lemma migrate_members_changes:
  "migrate_members gen n rs = Inr (rs', n') \<Longrightarrow> (rs' = rs \<longleftrightarrow> list_all complete_member rs)"
proof (induction rs arbitrary: n rs' n')
  case Nil
  then show ?case by auto
next
  case (Cons r rs)
  from Cons.prems obtain p r1 q where
      p: "assign_id gen n r = Inr p" and r1: "rename_name (fst p) = Inr r1"
      and q: "migrate_members gen (snd p) rs = Inr q" and res: "rs' = r1 # fst q"
    by (auto simp: bnd_eq_Inr)
  from p have a: "(fst p = r \<longleftrightarrow> has_id r)" "has_id (fst p)"
    using assign_id_changes[of gen n r "fst p" "snd p"] by simp_all
  from rename_name_changes[OF r1]
  have b: "(r1 = fst p \<longleftrightarrow> py_in ''name'' (fst p) = Inr False \<or> py_in ''Name'' (fst p) = Inr True)"
    and c: "has_id r1" using a(2) by simp_all
  have head: "r1 = r \<longleftrightarrow> complete_member r"
  proof (cases "has_id r")
    case True
    with a have "fst p = r" by simp
    with b True show ?thesis by (simp add: complete_member_def)
  next
    case False
    with c have "r1 \<noteq> r" by auto
    with False show ?thesis by (simp add: complete_member_def)
  qed
  from Cons.IH[of "snd p" "fst q" "snd q"] q
  have "fst q = rs \<longleftrightarrow> list_all complete_member rs" by simp
  with head res show ?case by auto
qed

lemma migrate_assets_changes:
  "migrate_assets gen n rs = Inr (rs', n') \<Longrightarrow> (rs' = rs \<longleftrightarrow> list_all has_id rs)"
proof (induction rs arbitrary: n rs' n')
  case Nil
  then show ?case by auto
next
  case (Cons r rs)
  from Cons.prems obtain p q where
      p: "assign_id gen n r = Inr p"
      and q: "migrate_assets gen (snd p) rs = Inr q" and res: "rs' = fst p # fst q"
    by (auto simp: bnd_eq_Inr)
  from p have a: "(fst p = r \<longleftrightarrow> has_id r)"
    using assign_id_changes[of gen n r "fst p" "snd p"] by simp
  from Cons.IH[of "snd p" "fst q" "snd q"] q
  have "fst q = rs \<longleftrightarrow> list_all has_id rs" by simp
  with a res show ?case by auto
qed

lemma list_at_dict_set_other: "k \<noteq> t \<Longrightarrow> list_at (dict_set d t v) k = list_at d k"
  by (simp add: list_at_def map_of_dict_set)

lemma migrate_sections_changes:
  assumes "distinct ts" and "old_data st = JObj d" and "migrate_sections gen ts st = Inr st'"
  shows "\<exists>d'. old_data st' = JObj d'
           \<and> (\<forall>k. k \<notin> set ts \<or> k = ''family_info'' \<longrightarrow> map_of d' k = map_of d k)
           \<and> (d' = d \<longleftrightarrow> list_all (\<lambda>t. t = ''family_info'' \<or> list_all has_id (list_at d t)) ts)"
  using assms
proof (induction ts arbitrary: st d)
  case Nil
  then show ?case by simp
next
  case (Cons t ts)
  note od = Cons.prems(2)
  have dts: "distinct ts" and tn: "t \<notin> set ts" using Cons.prems(1) by simp_all
  show ?case
  proof (cases "t \<noteq> ''family_info'' \<and> (\<exists>rs. map_of d t = Some (JArr rs))")
    case False
    have skip: "migrate_sections gen (t # ts) st = migrate_sections gen ts st"
    proof (cases "t = ''family_info'' \<or> t \<notin> fst ` set d")
      case True
      then show ?thesis by (auto simp: od)
    next
      case nf: False
      then obtain v where v: "map_of d t = Some v"
        by (cases "map_of d t") (auto simp: map_of_eq_None_iff)
      with False nf have "\<forall>rs. v \<noteq> JArr rs" by auto
      with nf v show ?thesis by (cases v) (simp_all add: od)
    qed
    have la: "t = ''family_info'' \<or> list_all has_id (list_at d t)"
      using False by (auto simp: list_at_def split: option.splits json.splits)
    from Cons.IH[OF dts od] Cons.prems(3) skip
    obtain d' where d': "old_data st' = JObj d'"
        "\<forall>k. k \<notin> set ts \<or> k = ''family_info'' \<longrightarrow> map_of d' k = map_of d k"
        "d' = d \<longleftrightarrow> list_all (\<lambda>t. t = ''family_info'' \<or> list_all has_id (list_at d t)) ts"
      by auto
    from d' la show ?thesis by auto
  next
    case True
    then obtain rs where t: "t \<noteq> ''family_info''" and rs: "map_of d t = Some (JArr rs)" by blast
    then have tin: "t \<in> fst ` set d" by (metis map_of_eq_None_iff option.distinct(1))
    from Cons.prems(3) t rs tin obtain q where
        q: "migrate_assets gen (drawn st) rs = Inr q"
        and rest: "migrate_sections gen ts (migrated st t t q) = Inr st'"
      by (auto simp: od bnd_eq_Inr)
    define d1 where "d1 = dict_set d t (JArr (fst q))"
    have o1: "old_data (migrated st t t q) = JObj d1"
      by (simp add: migrated_def od set_item_def d1_def)
    from Cons.IH[OF dts o1 rest]
    obtain d' where d': "old_data st' = JObj d'"
        "\<forall>k. k \<notin> set ts \<or> k = ''family_info'' \<longrightarrow> map_of d' k = map_of d1 k"
        "d' = d1 \<longleftrightarrow> list_all (\<lambda>t. t = ''family_info'' \<or> list_all has_id (list_at d1 t)) ts"
      by auto
    have same: "list_all (\<lambda>u. u = ''family_info'' \<or> list_all has_id (list_at d1 u)) ts
              = list_all (\<lambda>u. u = ''family_info'' \<or> list_all has_id (list_at d u)) ts"
    proof -
      have "\<forall>u\<in>set ts. list_at d1 u = list_at d u"
      proof (intro ballI)
        fix u assume "u \<in> set ts"
        with tn have "u \<noteq> t" by auto
        then show "list_at d1 u = list_at d u" by (simp add: d1_def list_at_dict_set_other)
      qed
      then show ?thesis by (simp add: list_all_iff)
    qed
    have frame: "\<forall>k. k \<notin> set (t # ts) \<or> k = ''family_info'' \<longrightarrow> map_of d' k = map_of d k"
      using d'(2) t by (auto simp: d1_def map_of_dict_set)
    have here: "fst q = rs \<longleftrightarrow> list_all has_id rs"
      using migrate_assets_changes[of gen "drawn st" rs "fst q" "snd q"] q by simp
    have lat: "list_at d t = rs" by (simp add: list_at_def rs)
    have mt: "map_of d' t = Some (JArr (fst q))"
      using d'(2) tn by (simp add: d1_def map_of_dict_set)
    have iff: "d' = d \<longleftrightarrow>
        list_all (\<lambda>t. t = ''family_info'' \<or> list_all has_id (list_at d t)) (t # ts)"
    proof (cases "fst q = rs")
      case True
      then have "d1 = d" by (simp add: d1_def dict_set_def update_triv rs)
      with d'(3) same here True lat show ?thesis by simp
    next
      case False
      with mt rs have "d' \<noteq> d" by auto
      with here False lat t show ?thesis by simp
    qed
    from d'(1) frame iff show ?thesis by blast
  qed
qed

lemma migrate_member_list_changes:
  assumes "old_data st = JObj d" and "migrate_member_list gen st = Inr st'"
  shows "\<exists>d'. old_data st' = JObj d'
           \<and> (d' = d \<longleftrightarrow> list_all complete_member (list_at d (member_list_key d)))
           \<and> (d' \<noteq> d \<longrightarrow> map_of d' (member_list_key d) \<noteq> map_of d (member_list_key d))"
proof -
  define k where "k = member_list_key d"
  have unf: "migrate_member_list gen st =
       (if k \<notin> fst ` set d then Inr st
        else bnd (py_getitem (JObj d) k) (\<lambda>v.
           case v of
             JArr rs \<Rightarrow>
               bnd (migrate_members gen (drawn st) rs) (\<lambda>q. Inr (migrated st ''family_info'' k q))
           | _ \<Rightarrow> Inr st))"
    by (simp add: migrate_member_list_def assms(1) k_def member_list_key_def)
  show ?thesis
  proof (cases "map_of d k")
    case None
    then have "k \<notin> fst ` set d" by (simp add: map_of_eq_None_iff)
    with assms(2) have "st' = st" by (simp add: unf)
    with None show ?thesis by (simp add: assms(1) list_at_def k_def[symmetric])
  next
    case (Some v)
    then have kin: "k \<in> fst ` set d" by (metis map_of_eq_None_iff option.distinct(1))
    show ?thesis
    proof (cases "\<exists>rs. v = JArr rs")
      case False
      with assms(2) Some kin have "st' = st" by (cases v) (simp_all add: unf)
      moreover from False Some have "list_at d k = []"
        by (cases v) (simp_all add: list_at_def)
      ultimately show ?thesis by (simp add: assms(1) k_def[symmetric])
    next
      case True
      then obtain rs where rs: "v = JArr rs" by blast
      with assms(2) Some kin obtain q where q: "migrate_members gen (drawn st) rs = Inr q"
          and st': "st' = migrated st ''family_info'' k q"
        by (auto simp: unf bnd_eq_Inr)
      define d' where "d' = dict_set d k (JArr (fst q))"
      have o: "old_data st' = JObj d'"
        by (simp add: st' migrated_def assms(1) set_item_def d'_def)
      have here: "fst q = rs \<longleftrightarrow> list_all complete_member rs"
        using migrate_members_changes[of gen "drawn st" rs "fst q" "snd q"] q by simp
      have lat: "list_at d k = rs" by (simp add: list_at_def Some rs)
      have mk: "map_of d' k = Some (JArr (fst q))" by (simp add: d'_def map_of_dict_set)
      show ?thesis
      proof (cases "fst q = rs")
        case True
        then have "d' = d" by (simp add: d'_def dict_set_def update_triv Some rs)
        with o here True lat show ?thesis by (simp add: k_def[symmetric])
      next
        case False
        with mk Some rs have "map_of d' k \<noteq> map_of d k" by simp
        moreover then have "d' \<noteq> d" by auto
        ultimately show ?thesis using o here False lat by (simp add: k_def[symmetric])
      qed
    qed
  qed
qed

lemma member_list_key_frame:
  "member_list_key d \<notin> set (map fst (items initialize_data_structures))
     \<or> member_list_key d = ''family_info''"
  by (simp add: member_list_key_def items_def initialize_data_structures_def)

lemma titles_distinct: "distinct (map fst (items initialize_data_structures))"
  by (simp add: items_def initialize_data_structures_def)

lemma transform_changes:
  assumes "transform_old_data_format gen n (JObj d) = Inr st"
  shows "old_data st = JObj d \<longleftrightarrow> complete_document d"
proof -
  define st0 where
    "st0 = \<lparr>new_store = initialize_data_structures, old_data = JObj d, drawn = n\<rparr>"
  define ts where "ts = map fst (items initialize_data_structures)"
  have o0: "old_data st0 = JObj d" by (simp add: st0_def)
  from assms obtain st1 where s1: "migrate_member_list gen st0 = Inr st1"
      and s2: "migrate_sections gen ts st1 = Inr st"
    by (auto simp: transform_old_data_format_def st0_def[symmetric] ts_def[symmetric] bnd_eq_Inr)
  from migrate_member_list_changes[OF o0 s1]
  obtain d1 where d1: "old_data st1 = JObj d1"
      "d1 = d \<longleftrightarrow> list_all complete_member (list_at d (member_list_key d))"
      "d1 \<noteq> d \<longrightarrow> map_of d1 (member_list_key d) \<noteq> map_of d (member_list_key d)"
    by blast
  have dts: "distinct ts" unfolding ts_def by (rule titles_distinct)
  from migrate_sections_changes[OF dts d1(1) s2]
  obtain d2 where d2: "old_data st = JObj d2"
      "\<forall>k. k \<notin> set ts \<or> k = ''family_info'' \<longrightarrow> map_of d2 k = map_of d1 k"
      "d2 = d1 \<longleftrightarrow> list_all (\<lambda>t. t = ''family_info'' \<or> list_all has_id (list_at d1 t)) ts"
    by blast
  show ?thesis
  proof (cases "d1 = d")
    case True
    with d1(2) d2(1,3) show ?thesis
      by (simp add: complete_document_def ts_def)
  next
    case False
    with d1(3) have neq: "map_of d1 (member_list_key d) \<noteq> map_of d (member_list_key d)" by simp
    from member_list_key_frame[of d] d2(2)
    have "map_of d2 (member_list_key d) = map_of d1 (member_list_key d)"
      unfolding ts_def by blast
    with neq have "d2 \<noteq> d" by auto
    with False d1(2) d2(1) show ?thesis by (simp add: complete_document_def)
  qed
qed

lemma migrate_sections_not_dict:
  assumes "\<forall>d. old_data st \<noteq> JObj d" and "migrate_sections gen ts st = Inr st'"
  shows "st' = st"
  using assms
proof (induction ts arbitrary: st)
  case Nil
  then show ?case by simp
next
  case (Cons t ts)
  show ?case
  proof (cases "t = ''family_info''")
    case True
    with Cons show ?thesis by simp
  next
    case False
    from Cons.prems(2) False obtain present where
      p: "py_in t (old_data st) = Inr present" by (auto simp: bnd_eq_Inr)
    show ?thesis
    proof (cases present)
      case True
      have "py_getitem (old_data st) t = Inl TypeError"
        using Cons.prems(1) by (cases "old_data st") simp_all
      with Cons.prems(2) False p True show ?thesis by simp
    next
      case np: False
      with Cons.prems(2) False p have "migrate_sections gen ts st = Inr st'" by simp
      with Cons.IH[OF Cons.prems(1)] show ?thesis by simp
    qed
  qed
qed

lemma migrate_member_list_not_dict:
  assumes "\<forall>d. old_data st \<noteq> JObj d" and "migrate_member_list gen st = Inr st'"
  shows "st' = st"
proof -
  have g: "\<And>k. py_getitem (old_data st) k = Inl TypeError"
    using assms(1) by (cases "old_data st") simp_all
  from assms(2) show ?thesis
    by (auto simp: migrate_member_list_def bnd_eq_Inr g Let_def split: if_splits)
qed

lemma transform_not_dict:
  assumes "\<forall>d. doc \<noteq> JObj d" and "transform_old_data_format gen n doc = Inr st"
  shows "old_data st = doc \<and> drawn st = n"
proof -
  define st0 where
    "st0 = \<lparr>new_store = initialize_data_structures, old_data = doc, drawn = n\<rparr>"
  have o0: "\<forall>d. old_data st0 \<noteq> JObj d" using assms(1) by (simp add: st0_def)
  from assms(2) obtain st1 where s1: "migrate_member_list gen st0 = Inr st1"
      and s2: "migrate_sections gen (map fst (items initialize_data_structures)) st1 = Inr st"
    by (auto simp: transform_old_data_format_def st0_def[symmetric] bnd_eq_Inr)
  from migrate_member_list_not_dict[OF o0 s1] have "st1 = st0" .
  with migrate_sections_not_dict[OF _ s2] o0 have "st = st0" by simp
  then show ?thesis by (simp add: st0_def)
qed

lemma transform_complete:
  assumes "complete_document d"
  shows "\<exists>st. transform_old_data_format gen n (JObj d) = Inr st
           \<and> old_data st = JObj d \<and> drawn st = n"
proof -
  define st0 where
    "st0 = \<lparr>new_store = initialize_data_structures, old_data = JObj d, drawn = n\<rparr>"
  have o0: "old_data st0 = JObj d" and d0: "drawn st0 = n" by (simp_all add: st0_def)
  have members:
      "\<forall>rs. map_of d (if ''members'' \<in> fst ` set d then ''members'' else ''family_info'')
              = Some (JArr rs)
         \<longrightarrow> (\<forall>r\<in>set rs. py_in ''id'' r = Inr True
                \<and> (py_in ''name'' r = Inr False \<or> py_in ''Name'' r = Inr True))"
    using assms
    by (simp add: complete_document_def list_at_def member_list_key_def list_all_iff
        complete_member_def has_id_def)
  from migrate_member_list_noop[OF members o0, of gen] d0
  obtain st1 where s1: "migrate_member_list gen st0 = Inr st1"
    "old_data st1 = JObj d" "drawn st1 = n" by auto
  define ts where "ts = map fst (items initialize_data_structures)"
  have "\<forall>t\<in>set ts. \<forall>rs.
        t \<noteq> ''family_info'' \<and> map_of d t = Some (JArr rs)
           \<longrightarrow> (\<forall>r\<in>set rs. py_in ''id'' r = Inr True)"
  proof (intro ballI allI impI)
    fix t rs r
    assume t: "t \<in> set ts" and h: "t \<noteq> ''family_info'' \<and> map_of d t = Some (JArr rs)"
      and r: "r \<in> set rs"
    from assms t have "t = ''family_info'' \<or> list_all has_id (list_at d t)"
      by (auto simp: complete_document_def list_all_iff ts_def)
    with h r show "py_in ''id'' r = Inr True"
      by (simp add: list_at_def list_all_iff has_id_def)
  qed
  from migrate_sections_noop[OF s1(2) this, of gen] s1(3)
  obtain st2 where "migrate_sections gen ts st1 = Inr st2" "old_data st2 = JObj d"
    "drawn st2 = n" by auto
  with s1(1) show ?thesis
    by (simp add: transform_old_data_format_def st0_def[symmetric] ts_def[symmetric])
qed

text \<open>
  C5 (amended): migration produces a new store value, but the records it migrates are
  the document's own, updated in place. When the document is complete (every record of
  the member list has an \<^verbatim>\<open>id\<close> and none has \<^verbatim>\<open>name\<close> without \<^verbatim>\<open>Name\<close>, and
  every record of the list of each other category of the store has an \<^verbatim>\<open>id\<close>),
  migration returns, leaves the document as it was and draws no identifier. Whenever
  migration returns, the document is as it was before if and only if it was complete. A
  document that is no dict is left as it was whenever migration returns.
\<close>

theorem migration_keeps_document_iff_complete:
  "(complete_document d \<longrightarrow>
      (\<exists>st. transform_old_data_format gen n (JObj d) = Inr st
         \<and> old_data st = JObj d \<and> drawn st = n))
   \<and> (\<forall>st. transform_old_data_format gen n (JObj d) = Inr st
         \<longrightarrow> (old_data st = JObj d) = complete_document d)
   \<and> (\<forall>doc st. (\<forall>e. doc \<noteq> JObj e) \<and> transform_old_data_format gen n doc = Inr st
         \<longrightarrow> old_data st = doc \<and> drawn st = n)"
proof (intro conjI impI allI)
  assume "complete_document d"
  then show "\<exists>st. transform_old_data_format gen n (JObj d) = Inr st
         \<and> old_data st = JObj d \<and> drawn st = n"
    by (rule transform_complete)
next
  fix st assume "transform_old_data_format gen n (JObj d) = Inr st"
  then show "(old_data st = JObj d) = complete_document d" by (rule transform_changes)
next
  fix doc st
  assume h: "(\<forall>e. doc \<noteq> JObj e) \<and> transform_old_data_format gen n doc = Inr st"
  then have "old_data st = doc \<and> drawn st = n" using transform_not_dict by blast
  then show "old_data st = doc" "drawn st = n" by simp_all
qed

theorem migration_keeps_document_iff_complete_witness:
  "complete_document sample_migrated
   \<and> (\<exists>st. transform_old_data_format sample_ids 0 (JObj sample_migrated) = Inr st
           \<and> old_data st = JObj sample_migrated \<and> drawn st = 0)
   \<and> \<not> complete_document [(''members'', JArr [JObj [(''name'', JStr ''Asha'')]])]
   \<and> (\<exists>st. transform_old_data_format sample_ids 0
              (JObj [(''members'', JArr [JObj [(''name'', JStr ''Asha'')]])]) = Inr st
           \<and> old_data st \<noteq> JObj [(''members'', JArr [JObj [(''name'', JStr ''Asha'')]])])"
proof -
  have c: "complete_document sample_migrated" by code_simp
  have n: "\<not> complete_document [(''members'', JArr [JObj [(''name'', JStr ''Asha'')]])]"
    by code_simp
  have "map_sum id old_data
     (transform_old_data_format sample_ids 0
        (JObj [(''members'', JArr [JObj [(''name'', JStr ''Asha'')]])]))
   = Inr (JObj [(''members'', JArr [JObj [(''id'', JStr ''uuid-''), (''Name'', JStr ''Asha'')]])])"
    by code_simp
  then obtain st where st: "transform_old_data_format sample_ids 0
              (JObj [(''members'', JArr [JObj [(''name'', JStr ''Asha'')]])]) = Inr st"
    by (cases "transform_old_data_format sample_ids 0
              (JObj [(''members'', JArr [JObj [(''name'', JStr ''Asha'')]])])") simp_all
  from migration_keeps_document_iff_complete
         [of sample_migrated sample_ids 0] c
  have a: "\<exists>st. transform_old_data_format sample_ids 0 (JObj sample_migrated) = Inr st
           \<and> old_data st = JObj sample_migrated \<and> drawn st = 0" by blast
  from migration_keeps_document_iff_complete
         [of "[(''members'', JArr [JObj [(''name'', JStr ''Asha'')]])]" sample_ids 0] st n
  have b: "old_data st \<noteq> JObj [(''members'', JArr [JObj [(''name'', JStr ''Asha'')]])]"
    by blast
  from c a n st b show ?thesis by blast
qed

section \<open>Migration of an older document\<close>

lemma assign_id_dict:
  "assign_id gen k (JObj e) =
     Inr (JObj (if ''id'' \<in> fst ` set e then e else e @ [(''id'', JStr (gen k))]),
          if ''id'' \<in> fst ` set e then k else Suc k)"
  by (simp add: assign_id_def py_setitem_def dict_set_absent)

lemma rename_name_dict:
  "rename_name (JObj e) =
     Inr (JObj (if ''name'' \<in> fst ` set e \<and> ''Name'' \<notin> fst ` set e
                then dict_set (dict_pop e ''name'') ''Name'' (the (map_of e ''name''))
                else e))"
proof (cases "''name'' \<in> fst ` set e \<and> ''Name'' \<notin> fst ` set e")
  case True
  then obtain v where "map_of e ''name'' = Some v"
    by (cases "map_of e ''name''") (auto simp: map_of_eq_None_iff)
  with True show ?thesis by (simp add: rename_name_def py_pop_def py_setitem_def)
next
  case False
  then show ?thesis by (auto simp: rename_name_def)
qed

lemma member_step:
  "\<exists>e1 e'. assign_id gen k (JObj e) = Inr (JObj e1, if ''id'' \<in> fst ` set e then k else Suc k)
        \<and> rename_name (JObj e1) = Inr (JObj e')
        \<and> member_migrated (gen k) e e'"
proof -
  let ?e1 = "if ''id'' \<in> fst ` set e then e else e @ [(''id'', JStr (gen k))]"
  let ?ren = "''name'' \<in> fst ` set e \<and> ''Name'' \<notin> fst ` set e"
  let ?e2 = "if ?ren then dict_set (dict_pop ?e1 ''name'') ''Name'' (the (map_of ?e1 ''name''))
             else ?e1"
  have keys1: "''name'' \<in> fst ` set ?e1 \<longleftrightarrow> ''name'' \<in> fst ` set e"
    "''Name'' \<in> fst ` set ?e1 \<longleftrightarrow> ''Name'' \<in> fst ` set e" by auto
  have run: "assign_id gen k (JObj e) = Inr (JObj ?e1, if ''id'' \<in> fst ` set e then k else Suc k)"
    "rename_name (JObj ?e1) = Inr (JObj ?e2)"
    by (simp_all add: assign_id_dict rename_name_dict keys1 del: map_of_append)
  have id1: "map_of ?e1 ''id'' = (if ''id'' \<in> fst ` set e then map_of e ''id'' else Some (JStr (gen k)))"
  proof (cases "''id'' \<in> fst ` set e")
    case True
    then show ?thesis by simp
  next
    case False
    then have "map_of e ''id'' = None" by (simp add: map_of_eq_None_iff)
    with False show ?thesis by (simp add: map_add_def)
  qed
  have oth1: "\<And>a. a \<noteq> ''id'' \<Longrightarrow> map_of ?e1 a = map_of e a"
    by (auto simp: map_add_def split: option.splits)
  have "member_migrated (gen k) e ?e2"
  proof (cases ?ren)
    case True
    then obtain v where "map_of e ''name'' = Some v"
      by (cases "map_of e ''name''") (auto simp: map_of_eq_None_iff)
    with True show ?thesis
      unfolding member_migrated_def
      by (simp add: map_of_dict_set map_of_dict_pop keys_dict_set keys_dict_pop id1 oth1
          del: map_of_append)
  next
    case False
    then show ?thesis
      unfolding member_migrated_def using id1 oth1 by auto
  qed
  with run show ?thesis by blast
qed

lemma lacking_id_Cons:
  "lacking_id (e # es) = (if ''id'' \<in> fst ` set e then 0 else 1) + lacking_id es"
  by (simp add: lacking_id_def)

lemma migrate_members_dicts:
  "\<exists>ms'. migrate_members gen n (map JObj ms) = Inr (map JObj ms', n + lacking_id ms)
      \<and> length ms' = length ms
      \<and> (\<forall>i<length ms. member_migrated (gen (n + lacking_id (take i ms))) (ms ! i) (ms' ! i))"
proof (induction ms arbitrary: n)
  case Nil
  then show ?case by (simp add: lacking_id_def)
next
  case (Cons e ms)
  define n1 where "n1 = (if ''id'' \<in> fst ` set e then n else Suc n)"
  from member_step[of gen n e] obtain e1 e' where
    a: "assign_id gen n (JObj e) = Inr (JObj e1, n1)"
    and r: "rename_name (JObj e1) = Inr (JObj e')"
    and m: "member_migrated (gen n) e e'"
    unfolding n1_def by blast
  from Cons.IH[of n1] obtain ms' where
    run: "migrate_members gen n1 (map JObj ms) = Inr (map JObj ms', n1 + lacking_id ms)"
    and len: "length ms' = length ms"
    and each: "\<forall>i<length ms. member_migrated (gen (n1 + lacking_id (take i ms))) (ms ! i) (ms' ! i)"
    by blast
  have n1: "n1 = n + lacking_id [e]" by (simp add: n1_def lacking_id_def)
  have "migrate_members gen n (map JObj (e # ms))
          = Inr (map JObj (e' # ms'), n + lacking_id (e # ms))"
    by (simp add: a r run) (simp add: n1_def lacking_id_Cons)
  moreover have "length (e' # ms') = length (e # ms)" using len by simp
  moreover have "\<forall>i<length (e # ms).
      member_migrated (gen (n + lacking_id (take i (e # ms)))) ((e # ms) ! i) ((e' # ms') ! i)"
  proof (intro allI impI)
    fix i assume i: "i < length (e # ms)"
    show "member_migrated (gen (n + lacking_id (take i (e # ms)))) ((e # ms) ! i) ((e' # ms') ! i)"
    proof (cases i)
      case 0
      with m show ?thesis by (simp add: lacking_id_def)
    next
      case (Suc j)
      with i each have "member_migrated (gen (n1 + lacking_id (take j ms))) (ms ! j) (ms' ! j)"
        by simp
      moreover have "n1 + lacking_id (take j ms) = n + lacking_id (take i (e # ms))"
        by (simp add: Suc n1_def lacking_id_Cons)
      ultimately show ?thesis by (simp add: Suc)
    qed
  qed
  ultimately show ?case by blast
qed

lemma migrate_assets_dicts:
  "\<exists>rs'. migrate_assets gen k (map JObj rs) = Inr (map JObj rs', k + lacking_id rs)
      \<and> list_all2 (\<lambda>e e'. \<exists>j\<ge>k. asset_migrated (gen j) e e') rs rs'"
proof (induction rs arbitrary: k)
  case Nil
  then show ?case by (simp add: lacking_id_def)
next
  case (Cons e rs)
  define k1 where "k1 = (if ''id'' \<in> fst ` set e then k else Suc k)"
  define e' where "e' = (if ''id'' \<in> fst ` set e then e else e @ [(''id'', JStr (gen k))])"
  have a: "assign_id gen k (JObj e) = Inr (JObj e', k1)"
    by (simp add: assign_id_dict k1_def e'_def)
  from Cons.IH[of k1] obtain rs' where
    run: "migrate_assets gen k1 (map JObj rs) = Inr (map JObj rs', k1 + lacking_id rs)"
    and each: "list_all2 (\<lambda>e e'. \<exists>j\<ge>k1. asset_migrated (gen j) e e') rs rs'"
    by blast
  have "k \<le> k1" by (simp add: k1_def)
  with each have each': "list_all2 (\<lambda>e e'. \<exists>j\<ge>k. asset_migrated (gen j) e e') rs rs'"
    by (auto elim!: list_all2_mono intro: order_trans)
  have "migrate_assets gen k (map JObj (e # rs)) = Inr (map JObj (e' # rs'), k + lacking_id (e # rs))"
    by (simp add: a run) (simp add: k1_def lacking_id_Cons)
  moreover have "\<exists>j\<ge>k. asset_migrated (gen j) e e'"
    by (rule exI[of _ k]) (simp add: asset_migrated_def e'_def)
  ultimately show ?case using each' by (intro exI[of _ "e' # rs'"]) simp
qed

lemma records_of_set_data_other:
  "t' \<noteq> t \<Longrightarrow> records_of (set_data store t v) t' = records_of store t'"
  by (auto simp: set_data_def records_of_def map_of_dict_set split: json.splits option.splits)

lemma set_data_sections:
  assumes "store = JObj s" "\<forall>t\<in>T. \<exists>c. map_of s t = Some (JObj c)" "t0 \<in> T"
  shows "\<exists>s'. set_data store t0 v = JObj s' \<and> (\<forall>t\<in>T. \<exists>c. map_of s' t = Some (JObj c))"
proof -
  from assms obtain c where c: "map_of s t0 = Some (JObj c)" by blast
  then have "set_data store t0 v = JObj (dict_set s t0 (JObj (dict_set c ''data'' v)))"
    by (simp add: set_data_def assms(1))
  moreover have "\<forall>t\<in>T. \<exists>c'. map_of (dict_set s t0 (JObj (dict_set c ''data'' v))) t = Some (JObj c')"
    using assms(2) by (simp add: map_of_dict_set)
  ultimately show ?thesis by blast
qed

lemma migrate_sections_result:
  assumes "distinct ts"
    and "old_data st = JObj d'"
    and "\<forall>t\<in>set ts. t \<noteq> ''family_info'' \<longrightarrow> map_of d' t = map_of d t"
    and "\<exists>s. new_store st = JObj s \<and> (\<forall>t\<in>set ts. \<exists>c. map_of s t = Some (JObj c))"
    and "\<forall>t rs. map_of d t = Some (JArr rs) \<longrightarrow> (\<forall>r\<in>set rs. \<exists>e. r = JObj e)"
    and "n \<le> drawn st"
  shows "\<exists>st'. migrate_sections gen ts st = Inr st'
     \<and> (\<forall>t. t \<notin> set ts \<or> t = ''family_info''
            \<longrightarrow> records_of (new_store st') t = records_of (new_store st) t)
     \<and> (\<forall>t\<in>set ts. t \<noteq> ''family_info'' \<longrightarrow>
           (\<forall>rs. map_of d t = Some (JArr (map JObj rs)) \<longrightarrow>
              (\<exists>rs'. records_of (new_store st') t = Inr (map JObj rs')
                 \<and> list_all2 (\<lambda>e e'. \<exists>j\<ge>n. asset_migrated (gen j) e e') rs rs')))"
  using assms
proof (induction ts arbitrary: st d')
  case Nil
  then show ?case by simp
next
  case (Cons t ts)
  note od = Cons.prems(2) and dicts = Cons.prems(5) and n = Cons.prems(6)
  from Cons.prems(1) have dist: "distinct ts" and tnot: "t \<notin> set ts" by simp_all
  from Cons.prems(3) have same: "\<forall>t\<in>set ts. t \<noteq> ''family_info'' \<longrightarrow> map_of d' t = map_of d t"
    by simp
  from Cons.prems(4) obtain s where s: "new_store st = JObj s"
    and secs: "\<forall>t\<in>set (t # ts). \<exists>c. map_of s t = Some (JObj c)" by blast
  then have ns: "\<exists>s. new_store st = JObj s \<and> (\<forall>t\<in>set ts. \<exists>c. map_of s t = Some (JObj c))"
    by auto
  have skip: ?case
    if run: "migrate_sections gen (t # ts) st = migrate_sections gen ts st"
    and none: "t = ''family_info'' \<or> (\<forall>rs. map_of d t \<noteq> Some (JArr rs))"
  proof -
    from Cons.IH[OF dist od same ns dicts n] obtain st' where
      r: "migrate_sections gen ts st = Inr st'"
      and fr: "\<forall>t. t \<notin> set ts \<or> t = ''family_info''
            \<longrightarrow> records_of (new_store st') t = records_of (new_store st) t"
      and res: "\<forall>t\<in>set ts. t \<noteq> ''family_info'' \<longrightarrow>
           (\<forall>rs. map_of d t = Some (JArr (map JObj rs)) \<longrightarrow>
              (\<exists>rs'. records_of (new_store st') t = Inr (map JObj rs')
                 \<and> list_all2 (\<lambda>e e'. \<exists>j\<ge>n. asset_migrated (gen j) e e') rs rs'))"
      by blast
    from r run have "migrate_sections gen (t # ts) st = Inr st'" by simp
    moreover from fr have "\<forall>u. u \<notin> set (t # ts) \<or> u = ''family_info''
            \<longrightarrow> records_of (new_store st') u = records_of (new_store st) u" by auto
    moreover from res none have "\<forall>u\<in>set (t # ts). u \<noteq> ''family_info'' \<longrightarrow>
           (\<forall>rs. map_of d u = Some (JArr (map JObj rs)) \<longrightarrow>
              (\<exists>rs'. records_of (new_store st') u = Inr (map JObj rs')
                 \<and> list_all2 (\<lambda>e e'. \<exists>j\<ge>n. asset_migrated (gen j) e e') rs rs'))"
      by auto
    ultimately show ?thesis by blast
  qed
  show ?case
  proof (cases "t = ''family_info''")
    case True
    then show ?thesis by (intro skip) simp_all
  next
    case nf: False
    with Cons.prems(3) have dt: "map_of d' t = map_of d t" by simp
    show ?thesis
    proof (cases "map_of d t")
      case None
      with dt have "t \<notin> fst ` set d'" by (simp add: map_of_eq_None_iff)
      with nf None show ?thesis by (intro skip) (simp_all add: od)
    next
      case (Some v)
      with dt have tin: "t \<in> fst ` set d'" by (metis map_of_eq_None_iff option.distinct(1))
      show ?thesis
      proof (cases "\<exists>rs0. v = JArr rs0")
        case False
        with nf Some dt tin show ?thesis
          by (intro skip) (cases v; simp add: od)+
      next
        case True
        then obtain rs0 where v: "v = JArr rs0" by blast
        with dicts Some have "\<forall>r\<in>set rs0. \<exists>e. r = JObj e" by blast
        then obtain rs where rs0: "rs0 = map JObj rs" by (metis ex_map_conv)
        from migrate_assets_dicts[of gen "drawn st" rs] obtain rs' where
          ma: "migrate_assets gen (drawn st) (map JObj rs) = Inr (map JObj rs', drawn st + lacking_id rs)"
          and each: "list_all2 (\<lambda>e e'. \<exists>j\<ge>drawn st. asset_migrated (gen j) e e') rs rs'"
          by blast
        from each n have each': "list_all2 (\<lambda>e e'. \<exists>j\<ge>n. asset_migrated (gen j) e e') rs rs'"
          by (auto elim!: list_all2_mono intro: order_trans)
        define st1 where "st1 = migrated st t t (map JObj rs', drawn st + lacking_id rs)"
        have run: "migrate_sections gen (t # ts) st = migrate_sections gen ts st1"
          using nf tin Some dt v rs0 ma by (simp add: od st1_def)
        have od1: "old_data st1 = JObj (dict_set d' t (JArr (map JObj rs')))"
          by (simp add: st1_def migrated_def od set_item_def)
        have same1: "\<forall>u\<in>set ts. u \<noteq> ''family_info''
            \<longrightarrow> map_of (dict_set d' t (JArr (map JObj rs'))) u = map_of d u"
          using same tnot by (auto simp: map_of_dict_set)
        have nst1: "new_store st1 = set_data (new_store st) t (JArr (map JObj rs'))"
          by (simp add: st1_def migrated_def)
        from set_data_sections[OF s secs, of t "JArr (map JObj rs')"]
        have ns1: "\<exists>s. new_store st1 = JObj s \<and> (\<forall>t\<in>set ts. \<exists>c. map_of s t = Some (JObj c))"
          by (auto simp: nst1)
        have n1: "n \<le> drawn st1" using n by (simp add: st1_def migrated_def)
        from Cons.IH[OF dist od1 same1 ns1 dicts n1] obtain st' where
          r: "migrate_sections gen ts st1 = Inr st'"
          and fr: "\<forall>u. u \<notin> set ts \<or> u = ''family_info''
            \<longrightarrow> records_of (new_store st') u = records_of (new_store st1) u"
          and res: "\<forall>u\<in>set ts. u \<noteq> ''family_info'' \<longrightarrow>
           (\<forall>rs. map_of d u = Some (JArr (map JObj rs)) \<longrightarrow>
              (\<exists>rs'. records_of (new_store st') u = Inr (map JObj rs')
                 \<and> list_all2 (\<lambda>e e'. \<exists>j\<ge>n. asset_migrated (gen j) e e') rs rs'))"
          by blast
        from secs obtain c where c: "map_of s t = Some (JObj c)" by auto
        have here: "records_of (new_store st') t = Inr (map JObj rs')"
          using fr tnot records_of_set_data[OF s c] by (simp add: nst1)
        have a: "migrate_sections gen (t # ts) st = Inr st'" using run r by simp
        have b: "\<forall>u. u \<notin> set (t # ts) \<or> u = ''family_info''
            \<longrightarrow> records_of (new_store st') u = records_of (new_store st) u"
        proof (intro allI impI)
          fix u assume u: "u \<notin> set (t # ts) \<or> u = ''family_info''"
          with nf have "u \<noteq> t" by auto
          moreover from u fr have "records_of (new_store st') u = records_of (new_store st1) u"
            by auto
          ultimately show "records_of (new_store st') u = records_of (new_store st) u"
            by (simp add: nst1 records_of_set_data_other)
        qed
        have inj: "\<And>xs. map JObj xs = map JObj rs \<Longrightarrow> xs = rs"
          by (simp add: inj_on_def map_eq_conv inj_map_eq_map[of JObj])
        have c': "\<forall>u\<in>set (t # ts). u \<noteq> ''family_info'' \<longrightarrow>
           (\<forall>rs. map_of d u = Some (JArr (map JObj rs)) \<longrightarrow>
              (\<exists>rs'. records_of (new_store st') u = Inr (map JObj rs')
                 \<and> list_all2 (\<lambda>e e'. \<exists>j\<ge>n. asset_migrated (gen j) e e') rs rs'))"
        proof (intro ballI impI allI)
          fix u rs2 assume u: "u \<in> set (t # ts)" "u \<noteq> ''family_info''"
            and m: "map_of d u = Some (JArr (map JObj rs2))"
          show "\<exists>rs'. records_of (new_store st') u = Inr (map JObj rs')
                 \<and> list_all2 (\<lambda>e e'. \<exists>j\<ge>n. asset_migrated (gen j) e e') rs2 rs'"
          proof (cases "u = t")
            case True
            with m Some v rs0 have "rs2 = rs" by (simp add: inj)
            with here each' True show ?thesis by blast
          next
            case False
            with u res m show ?thesis by auto
          qed
        qed
        from a b c' show ?thesis by blast
      qed
    qed
  qed
qed

lemma init_sections:
  "\<exists>s. initialize_data_structures = JObj s
     \<and> (\<forall>t\<in>set (map fst (items initialize_data_structures)). \<exists>c. map_of s t = Some (JObj c))"
  by (simp add: initialize_data_structures_def items_def section_of_def)

lemma init_titles:
  "distinct (map fst (items initialize_data_structures))"
  "''members'' \<notin> set (map fst (items initialize_data_structures))"
  "''family_info'' \<in> set (map fst (items initialize_data_structures))"
  by (simp_all add: initialize_data_structures_def items_def)

lemma asha_example:
  "map_sum id (\<lambda>st. records_of (new_store st) ''family_info'')
     (transform_old_data_format gen n (JObj [(''members'', JArr [JObj [(''name'', JStr ''Asha'')]])]))
   = Inr (Inr [JObj [(''id'', JStr (gen n)), (''Name'', JStr ''Asha'')]])"
  by (simp add: transform_old_data_format_def migrate_member_list_def assign_id_def
      rename_name_def py_setitem_def py_pop_def dict_set_def dict_pop_def migrated_def
      set_item_def set_data_def items_def initialize_data_structures_def section_of_def
      records_of_def)

text \<open>
  For a document whose member list (the entry under \<^verbatim>\<open>members\<close> when the
  document has that key, the one under \<^verbatim>\<open>family_info\<close> otherwise) is a bare
  sequence of records, and whose bare sequences hold records only, the migration returns
  a store in which \<^verbatim>\<open>family_info\<close> holds one record per member, in order, each
  migrated as the specification says: the identifier kept, or a fresh one assigned (the
  next one of the generator, so that no two records receive the same draw); \<^verbatim>\<open>name\<close>
  renamed to \<^verbatim>\<open>Name\<close> when \<^verbatim>\<open>Name\<close> was absent, leaving no \<^verbatim>\<open>name\<close>; the
  other attributes unchanged. Every other recognized category that is a bare sequence
  has its records copied verbatim, with an identifier appended where one was missing. In
  particular \<^verbatim>\<open>{"members": [{"name": "Asha"}]}\<close> yields the single member record
  with the fresh identifier and \<^verbatim>\<open>Name\<close> Asha, and no \<^verbatim>\<open>name\<close>.
\<close>

lemma legacy_migration:
  assumes members:
      "map_of d (if ''members'' \<in> fst ` set d then ''members'' else ''family_info'')
         = Some (JArr (map JObj ms))"
    and dicts: "\<forall>t rs. map_of d t = Some (JArr rs) \<longrightarrow> (\<forall>r\<in>set rs. \<exists>e. r = JObj e)"
  shows "(\<exists>st ms'.
            transform_old_data_format gen n (JObj d) = Inr st
          \<and> records_of (new_store st) ''family_info'' = Inr (map JObj ms')
          \<and> length ms' = length ms
          \<and> (\<forall>i<length ms.
                member_migrated (gen (n + lacking_id (take i ms))) (ms ! i) (ms' ! i))
          \<and> (\<forall>t\<in>set (map fst (items initialize_data_structures)). t \<noteq> ''family_info'' \<longrightarrow>
                (\<forall>rs. map_of d t = Some (JArr (map JObj rs)) \<longrightarrow>
                   (\<exists>rs'. records_of (new_store st) t = Inr (map JObj rs')
                      \<and> list_all2 (\<lambda>e e'. \<exists>j\<ge>n. asset_migrated (gen j) e e') rs rs'))))
       \<and> map_sum id (\<lambda>st. records_of (new_store st) ''family_info'')
            (transform_old_data_format gen n
               (JObj [(''members'', JArr [JObj [(''name'', JStr ''Asha'')]])]))
          = Inr (Inr [JObj [(''id'', JStr (gen n)), (''Name'', JStr ''Asha'')]])"
proof -
  define k where "k = (if ''members'' \<in> fst ` set d then ''members'' else ''family_info'')"
  define ts where "ts = map fst (items initialize_data_structures)"
  define st0 where
    "st0 = \<lparr>new_store = initialize_data_structures, old_data = JObj d, drawn = n\<rparr>"
  from members have mk: "map_of d k = Some (JArr (map JObj ms))" by (simp add: k_def)
  then have kin: "k \<in> fst ` set d" by (metis map_of_eq_None_iff option.distinct(1))
  from migrate_members_dicts[of gen n ms] obtain ms' where
    mm: "migrate_members gen n (map JObj ms) = Inr (map JObj ms', n + lacking_id ms)"
    and len: "length ms' = length ms"
    and each: "\<forall>i<length ms.
                member_migrated (gen (n + lacking_id (take i ms))) (ms ! i) (ms' ! i)"
    by blast
  define st1 where "st1 = migrated st0 ''family_info'' k (map JObj ms', n + lacking_id ms)"
  have "migrate_member_list gen st0 =
       (if k \<notin> fst ` set d then Inr st0
        else bnd (py_getitem (JObj d) k) (\<lambda>v.
           case v of
             JArr rs \<Rightarrow>
               bnd (migrate_members gen (drawn st0) rs) (\<lambda>q. Inr (migrated st0 ''family_info'' k q))
           | _ \<Rightarrow> Inr st0))"
    by (simp add: migrate_member_list_def st0_def k_def)
  with kin mk mm have ml: "migrate_member_list gen st0 = Inr st1"
    by (simp add: st1_def st0_def)
  have od1: "old_data st1 = JObj (dict_set d k (JArr (map JObj ms')))"
    by (simp add: st1_def st0_def migrated_def set_item_def)
  have "''members'' \<notin> set ts" unfolding ts_def by (rule init_titles(2))
  then have knot: "\<forall>t\<in>set ts. t \<noteq> ''family_info'' \<longrightarrow> t \<noteq> k"
    unfolding k_def by metis
  then have same1: "\<forall>t\<in>set ts. t \<noteq> ''family_info''
      \<longrightarrow> map_of (dict_set d k (JArr (map JObj ms'))) t = map_of d t"
    by (simp add: map_of_dict_set)
  have nst1: "new_store st1 = set_data initialize_data_structures ''family_info'' (JArr (map JObj ms'))"
    by (simp add: st1_def st0_def migrated_def)
  from init_sections obtain s where s: "initialize_data_structures = JObj s"
    and secs: "\<forall>t\<in>set ts. \<exists>c. map_of s t = Some (JObj c)" unfolding ts_def by blast
  have fi: "''family_info'' \<in> set ts" using init_titles(3) by (simp add: ts_def)
  from set_data_sections[OF s secs fi, of "JArr (map JObj ms')"]
  have ns1: "\<exists>s. new_store st1 = JObj s \<and> (\<forall>t\<in>set ts. \<exists>c. map_of s t = Some (JObj c))"
    by (simp add: nst1)
  have n1: "n \<le> drawn st1" by (simp add: st1_def migrated_def)
  have dist: "distinct ts" using init_titles(1) by (simp add: ts_def)
  from migrate_sections_result[OF dist od1 same1 ns1 dicts n1, of gen] obtain st where
    run: "migrate_sections gen ts st1 = Inr st"
    and fr: "\<forall>t. t \<notin> set ts \<or> t = ''family_info''
            \<longrightarrow> records_of (new_store st) t = records_of (new_store st1) t"
    and res: "\<forall>t\<in>set ts. t \<noteq> ''family_info'' \<longrightarrow>
           (\<forall>rs. map_of d t = Some (JArr (map JObj rs)) \<longrightarrow>
              (\<exists>rs'. records_of (new_store st) t = Inr (map JObj rs')
                 \<and> list_all2 (\<lambda>e e'. \<exists>j\<ge>n. asset_migrated (gen j) e e') rs rs'))"
    by blast
  have tr: "transform_old_data_format gen n (JObj d) = Inr st"
    using ml run by (simp add: transform_old_data_format_def st0_def[symmetric] ts_def[symmetric])
  from secs fi obtain c where c: "map_of s ''family_info'' = Some (JObj c)" by blast
  have fam: "records_of (new_store st) ''family_info'' = Inr (map JObj ms')"
    using fr records_of_set_data[OF s c] by (simp add: nst1)
  from tr fam len each res have
    "\<exists>st ms'.
            transform_old_data_format gen n (JObj d) = Inr st
          \<and> records_of (new_store st) ''family_info'' = Inr (map JObj ms')
          \<and> length ms' = length ms
          \<and> (\<forall>i<length ms.
                member_migrated (gen (n + lacking_id (take i ms))) (ms ! i) (ms' ! i))
          \<and> (\<forall>t\<in>set ts. t \<noteq> ''family_info'' \<longrightarrow>
                (\<forall>rs. map_of d t = Some (JArr (map JObj rs)) \<longrightarrow>
                   (\<exists>rs'. records_of (new_store st) t = Inr (map JObj rs')
                      \<and> list_all2 (\<lambda>e e'. \<exists>j\<ge>n. asset_migrated (gen j) e e') rs rs')))"
    by blast
  then show ?thesis unfolding ts_def using asha_example by blast
qed

lemma legacy_migration_example:
  "map_of sample_legacy
      (if ''members'' \<in> fst ` set sample_legacy then ''members'' else ''family_info'')
     = Some (JArr (map JObj
         [[(''name'', JStr ''Asha'')],
          [(''id'', JStr ''m2''), (''Name'', JStr ''Ravi''), (''name'', JStr ''ravi'')]]))
   \<and> (\<exists>st ms'.
            transform_old_data_format sample_ids 0 (JObj sample_legacy) = Inr st
          \<and> records_of (new_store st) ''family_info'' = Inr (map JObj ms')
          \<and> length ms' = 2
          \<and> member_migrated (sample_ids 0) [(''name'', JStr ''Asha'')] (ms' ! 0)
          \<and> (\<exists>rs'. records_of (new_store st) ''bank_accounts'' = Inr (map JObj rs')
                \<and> list_all2 (\<lambda>e e'. \<exists>j\<ge>0. asset_migrated (sample_ids j) e e')
                      [[(''BANK NAME'', JStr ''SBI'')]] rs'))"
proof -
  let ?ms = "[[(''name'', JStr ''Asha'')],
          [(''id'', JStr ''m2''), (''Name'', JStr ''Ravi''), (''name'', JStr ''ravi'')]]"
  have h1: "map_of sample_legacy
      (if ''members'' \<in> fst ` set sample_legacy then ''members'' else ''family_info'')
     = Some (JArr (map JObj ?ms))"
    by (simp add: sample_legacy_def)
  have h2: "\<forall>t rs. map_of sample_legacy t = Some (JArr rs) \<longrightarrow> (\<forall>r\<in>set rs. \<exists>e. r = JObj e)"
    by (auto simp: sample_legacy_def split: if_splits)
  have t: "''bank_accounts'' \<in> set (map fst (items initialize_data_structures))"
    by (simp add: initialize_data_structures_def items_def)
  have b: "map_of sample_legacy ''bank_accounts'' = Some (JArr (map JObj [[(''BANK NAME'', JStr ''SBI'')]]))"
    by (simp add: sample_legacy_def)
  from legacy_migration [OF h1 h2, of sample_ids 0] obtain st ms' where
    r: "transform_old_data_format sample_ids 0 (JObj sample_legacy) = Inr st"
      "records_of (new_store st) ''family_info'' = Inr (map JObj ms')"
      "length ms' = length ?ms"
      "\<forall>i<length ?ms. member_migrated (sample_ids (0 + lacking_id (take i ?ms))) (?ms ! i) (ms' ! i)"
      "\<forall>t\<in>set (map fst (items initialize_data_structures)). t \<noteq> ''family_info'' \<longrightarrow>
                (\<forall>rs. map_of sample_legacy t = Some (JArr (map JObj rs)) \<longrightarrow>
                   (\<exists>rs'. records_of (new_store st) t = Inr (map JObj rs')
                      \<and> list_all2 (\<lambda>e e'. \<exists>j\<ge>0. asset_migrated (sample_ids j) e e') rs rs'))"
    by blast
  from r(4) have "member_migrated (sample_ids (0 + lacking_id (take 0 ?ms))) (?ms ! 0) (ms' ! 0)"
    by (rule allE[of _ 0]) simp
  then have m0: "member_migrated (sample_ids 0) [(''name'', JStr ''Asha'')] (ms' ! 0)"
    by (simp add: lacking_id_def)
  from r(5) t have "''bank_accounts'' \<noteq> ''family_info'' \<longrightarrow>
                (\<forall>rs. map_of sample_legacy ''bank_accounts'' = Some (JArr (map JObj rs)) \<longrightarrow>
                   (\<exists>rs'. records_of (new_store st) ''bank_accounts'' = Inr (map JObj rs')
                      \<and> list_all2 (\<lambda>e e'. \<exists>j\<ge>0. asset_migrated (sample_ids j) e e') rs rs'))"
    by (rule bspec)
  then have "\<forall>rs. map_of sample_legacy ''bank_accounts'' = Some (JArr (map JObj rs)) \<longrightarrow>
                   (\<exists>rs'. records_of (new_store st) ''bank_accounts'' = Inr (map JObj rs')
                      \<and> list_all2 (\<lambda>e e'. \<exists>j\<ge>0. asset_migrated (sample_ids j) e e') rs rs')"
    by simp
  then have "map_of sample_legacy ''bank_accounts''
                 = Some (JArr (map JObj [[(''BANK NAME'', JStr ''SBI'')]])) \<longrightarrow>
                   (\<exists>rs'. records_of (new_store st) ''bank_accounts'' = Inr (map JObj rs')
                      \<and> list_all2 (\<lambda>e e'. \<exists>j\<ge>0. asset_migrated (sample_ids j) e e')
                            [[(''BANK NAME'', JStr ''SBI'')]] rs')"
    by (rule spec)
  then have bank: "\<exists>rs'. records_of (new_store st) ''bank_accounts'' = Inr (map JObj rs')
                \<and> list_all2 (\<lambda>e e'. \<exists>j\<ge>0. asset_migrated (sample_ids j) e e')
                      [[(''BANK NAME'', JStr ''SBI'')]] rs'"
    using b by (rule mp)
  have len: "length ms' = 2" using r(3) by simp
  show ?thesis
  proof (intro conjI)
    show "map_of sample_legacy
      (if ''members'' \<in> fst ` set sample_legacy then ''members'' else ''family_info'')
     = Some (JArr (map JObj ?ms))" by (rule h1)
    from r(1,2) len m0 bank
    show "\<exists>st ms'.
            transform_old_data_format sample_ids 0 (JObj sample_legacy) = Inr st
          \<and> records_of (new_store st) ''family_info'' = Inr (map JObj ms')
          \<and> length ms' = 2
          \<and> member_migrated (sample_ids 0) [(''name'', JStr ''Asha'')] (ms' ! 0)
          \<and> (\<exists>rs'. records_of (new_store st) ''bank_accounts'' = Inr (map JObj rs')
                \<and> list_all2 (\<lambda>e e'. \<exists>j\<ge>0. asset_migrated (sample_ids j) e e')
                      [[(''BANK NAME'', JStr ''SBI'')]] rs')"
      by blast
  qed
qed

text \<open>
  C4: the claim holds of the documents above, and fails of a document whose members are
  the bare sequence under \<^verbatim>\<open>family_info\<close> while a \<^verbatim>\<open>members\<close> key is present
  with a value that is no list. The load takes such a document for an older one, on
  account of the list under \<^verbatim>\<open>family_info\<close>, and announces its migration; the
  migration then looks for the members under \<^verbatim>\<open>members\<close> alone, because the key is
  present, finds no list there and migrates no member. The load ends without an error
  and with an empty store. The same list is migrated when the \<^verbatim>\<open>members\<close> key is
  absent.
\<close>

theorem legacy_members_under_family_info_dropped:
  "is_current_format (JObj sample_misfiled) = Inr False
   \<and> is_legacy_format (JObj sample_misfiled) = Inr True
   \<and> map_sum id new_store (transform_old_data_format sample_ids 0 (JObj sample_misfiled))
       = Inr initialize_data_structures
   \<and> load_data_from_file_ext (\<lambda>store. None) sample_ids 0 (JObj sample_misfiled)
       = (None, initialize_data_structures)
   \<and> records_of initialize_data_structures ''family_info'' = Inr []
   \<and> map_sum id (\<lambda>st. records_of (new_store st) ''family_info'')
       (transform_old_data_format sample_ids 0
          (JObj [(''family_info'', JArr [JObj [(''name'', JStr ''Asha'')]])]))
       = Inr (Inr [JObj [(''id'', JStr (sample_ids 0)), (''Name'', JStr ''Asha'')]])"
  by code_simp

section \<open>Saving and loading again\<close>

lemma map_of_rev_distinct: "distinct (map fst d) \<Longrightarrow> map_of (rev d) = map_of d"
proof (induction d)
  case Nil
  then show ?case by simp
next
  case (Cons p d)
  then have "fst p \<notin> fst ` set d" by auto
  then have "map_of d (fst p) = None" by (simp add: map_of_eq_None_iff)
  with Cons show ?case
    by (cases p) (auto simp: map_add_def fun_eq_iff split: option.splits)
qed

lemma fill_sections_props:
  "\<exists>sd'. fill_sections its (JObj sd) = Inr (JObj sd')
     \<and> (\<forall>cat\<in>fst ` set sd. map_of sd' cat = map_of sd cat)
     \<and> (fst ` set its \<subseteq> fst ` set sd \<longrightarrow> sd' = sd)"
proof (induction its arbitrary: sd)
  case Nil
  then show ?case by simp
next
  case (Cons p its)
  show ?case
  proof (cases "fst p \<in> fst ` set sd")
    case True
    with Cons.IH[of sd] show ?thesis by auto
  next
    case False
    from Cons.IH[of "dict_set sd (fst p) (snd p)"] obtain sd' where
      r: "fill_sections its (JObj (dict_set sd (fst p) (snd p))) = Inr (JObj sd')"
      and m: "\<forall>cat\<in>fst ` set (dict_set sd (fst p) (snd p)).
                 map_of sd' cat = map_of (dict_set sd (fst p) (snd p)) cat"
      by blast
    have "\<forall>cat\<in>fst ` set sd. map_of sd' cat = map_of sd cat"
    proof
      fix cat assume c: "cat \<in> fst ` set sd"
      with False have "cat \<noteq> fst p" by blast
      moreover from c have "cat \<in> fst ` set (dict_set sd (fst p) (snd p))"
        by (simp only: keys_dict_set insertI2)
      with m have "map_of sd' cat = map_of (dict_set sd (fst p) (snd p)) cat"
        by (rule bspec)
      ultimately show "map_of sd' cat = map_of sd cat" by (simp add: map_of_dict_set)
    qed
    with r False show ?thesis by (auto simp: py_setitem_def)
  qed
qed

text \<open>
  C8: saving writes \<^verbatim>\<open>json.dump(self.data_store)\<close> and loading reads \<^verbatim>\<open>json.load\<close>
  back; the two library functions are parameters here, assumed to give back the store
  they were given, as they do on values made of dicts with string keys, lists, strings
  and integers. A store the program holds passes the test of the current format (it is
  the empty store or a document adopted by a load). Loading what was saved then takes the
  current-format branch in both variants and succeeds (the views raising nothing), and
  every category of the saved store has the same content in the loaded one, field for
  field, \<^verbatim>\<open>id\<close> and \<^verbatim>\<open>holders\<close> included, since the section values are the very
  values saved. When the saved store has the ten declared categories, as every store of
  the program has, the loaded store has no other category: in the extended variant it is
  the saved store itself.
\<close>

theorem roundtrip_current_format:
  assumes codec: "deserialize (serialize (JObj sd)) = JObj sd"
      and cur: "is_current_format (JObj sd) = Inr True"
      and dist: "distinct (map fst sd)"
      and views: "\<forall>s. refresh s = None"
  shows "(\<exists>sd'. load_data_from_file_basic refresh confirm previous (deserialize (serialize (JObj sd)))
                  = (None, JObj sd')
              \<and> (\<forall>cat\<in>fst ` set sd. map_of sd' cat = map_of sd cat)
              \<and> (fst ` set (items initialize_data_structures) \<subseteq> fst ` set sd
                    \<longrightarrow> map_of sd' = map_of sd))
       \<and> (\<exists>sd'. load_data_from_file_ext refresh gen n (deserialize (serialize (JObj sd)))
                  = (None, JObj sd')
              \<and> (\<forall>cat\<in>fst ` set sd. map_of sd' cat = map_of sd cat)
              \<and> (fst ` set (items initialize_data_structures) \<subseteq> fst ` set sd
                    \<longrightarrow> sd' = sd))"
proof -
  obtain init where init: "initialize_data_structures = JObj init"
    by (simp add: initialize_data_structures_def)
  have it: "items initialize_data_structures = init" by (simp add: init items_def)
  let ?sd' = "dict_update init sd"
  have lb: "load_data_from_file_basic refresh confirm previous (JObj sd) = (None, JObj ?sd')"
    using views by (simp add: load_data_from_file_basic_def cur py_update_def init)
  have look: "\<And>cat. map_of ?sd' cat = (case map_of sd cat of None \<Rightarrow> map_of init cat | Some v \<Rightarrow> Some v)"
    by (simp add: map_of_dict_update map_of_rev_distinct[OF dist])
  have b1: "\<forall>cat\<in>fst ` set sd. map_of ?sd' cat = map_of sd cat"
  proof
    fix cat assume "cat \<in> fst ` set sd"
    then obtain v where "map_of sd cat = Some v"
      by (cases "map_of sd cat") (auto simp: map_of_eq_None_iff)
    then show "map_of ?sd' cat = map_of sd cat" by (simp add: look)
  qed
  have b2: "map_of ?sd' = map_of sd" if sub: "fst ` set (items initialize_data_structures) \<subseteq> fst ` set sd"
  proof
    fix cat
    show "map_of ?sd' cat = map_of sd cat"
    proof (cases "map_of sd cat")
      case None
      then have "cat \<notin> fst ` set sd" by (simp add: map_of_eq_None_iff)
      with sub have "cat \<notin> fst ` set init" by (auto simp: it)
      then have "map_of init cat = None" by (simp add: map_of_eq_None_iff)
      with None show ?thesis by (simp add: look)
    next
      case (Some v)
      then show ?thesis by (simp add: look)
    qed
  qed
  from fill_sections_props[of init sd] obtain sd2 where
    f: "fill_sections init (JObj sd) = Inr (JObj sd2)"
    and e1: "\<forall>cat\<in>fst ` set sd. map_of sd2 cat = map_of sd cat"
    and e2: "fst ` set init \<subseteq> fst ` set sd \<longrightarrow> sd2 = sd" by blast
  have le: "load_data_from_file_ext refresh gen n (JObj sd) = (None, JObj sd2)"
    using views by (simp add: load_data_from_file_ext_def adopt_ext_def cur it f)
  from lb b1 b2 le e1 e2 show ?thesis by (auto simp: codec it)
qed

theorem roundtrip_current_format_witness:
  "store_with [JObj [(''Name'', JStr ''Asha''), (''id'', JStr ''m1'')]] [sample_account]
     = JObj (items (store_with [JObj [(''Name'', JStr ''Asha''), (''id'', JStr ''m1'')]]
                  [sample_account]))
   \<and> is_current_format
        (JObj (items (store_with [JObj [(''Name'', JStr ''Asha''), (''id'', JStr ''m1'')]]
                  [sample_account]))) = Inr True
   \<and> distinct (map fst (items (store_with [JObj [(''Name'', JStr ''Asha''), (''id'', JStr ''m1'')]]
                  [sample_account])))
   \<and> (\<forall>s. (Map.empty :: json \<Rightarrow> error option) s = None)
   \<and> (\<exists>sd'. load_data_from_file_basic Map.empty False initialize_data_structures
               (store_with [JObj [(''Name'', JStr ''Asha''), (''id'', JStr ''m1'')]] [sample_account])
                  = (None, JObj sd')
              \<and> map_of sd' ''bank_accounts''
                  = map_of (items (store_with [JObj [(''Name'', JStr ''Asha''), (''id'', JStr ''m1'')]]
                      [sample_account])) ''bank_accounts'')
   \<and> (\<exists>sd'. load_data_from_file_ext Map.empty sample_ids 0
               (store_with [JObj [(''Name'', JStr ''Asha''), (''id'', JStr ''m1'')]] [sample_account])
                  = (None, JObj sd')
              \<and> map_of sd' ''bank_accounts''
                  = map_of (items (store_with [JObj [(''Name'', JStr ''Asha''), (''id'', JStr ''m1'')]]
                      [sample_account])) ''bank_accounts'')"
proof -
  let ?S = "store_with [JObj [(''Name'', JStr ''Asha''), (''id'', JStr ''m1'')]] [sample_account]"
  have s: "JObj (items ?S) = ?S" by code_simp
  have h1: "?S = JObj (items ?S)"
    using s by simp
  have h2: "is_current_format (JObj (items ?S)) = Inr True" by code_simp
  have h3: "distinct (map fst (items ?S))" by code_simp
  have h4: "\<forall>s. (Map.empty :: json \<Rightarrow> error option) s = None" by simp
  have k: "''bank_accounts'' \<in> fst ` set (items ?S)" by code_simp
  note inst = roundtrip_current_format
    [where deserialize = "\<lambda>txt. ?S" and serialize = "\<lambda>s. []" and sd = "items ?S"
       and refresh = Map.empty and confirm = False and previous = initialize_data_structures
       and gen = sample_ids and n = 0]
  from inst [OF h1 h2 h3 h4]
  obtain sd1 sd2 where
    a: "load_data_from_file_basic Map.empty False initialize_data_structures ?S = (None, JObj sd1)"
       "\<forall>cat\<in>fst ` set (items ?S). map_of sd1 cat = map_of (items ?S) cat"
    and b: "load_data_from_file_ext Map.empty sample_ids 0 ?S = (None, JObj sd2)"
       "\<forall>cat\<in>fst ` set (items ?S). map_of sd2 cat = map_of (items ?S) cat"
    by blast
  from a(2) k have a2: "map_of sd1 ''bank_accounts'' = map_of (items ?S) ''bank_accounts''"
    by (rule bspec)
  from b(2) k have b2: "map_of sd2 ''bank_accounts'' = map_of (items ?S) ''bank_accounts''"
    by (rule bspec)
  note a1 = a(1) and b1 = b(1)
  show ?thesis
  proof (intro conjI)
    show "\<exists>sd'. load_data_from_file_basic Map.empty False initialize_data_structures ?S
                  = (None, JObj sd')
              \<and> map_of sd' ''bank_accounts'' = map_of (items ?S) ''bank_accounts''"
      using a1 a2 by blast
    show "\<exists>sd'. load_data_from_file_ext Map.empty sample_ids 0 ?S = (None, JObj sd')
              \<and> map_of sd' ''bank_accounts'' = map_of (items ?S) ''bank_accounts''"
      using b1 b2 by blast
  qed (rule h1 h2 h3 h4)+
qed

section \<open>The export\<close>

lemma row_get_keyed [simp]: "row_get (keyed d) (JStr k) = map_of d k"
  by (induction d) (auto simp: keyed_def)

lemma row_pop_keyed [simp]: "row_pop (keyed d) (JStr k) = keyed (AList.delete k d)"
  by (induction d) (auto simp: keyed_def row_pop_def)

lemma row_set_keyed [simp]: "row_set (keyed d) (JStr k) v = keyed (AList.update k v d)"
  by (induction d) (auto simp: keyed_def)





lemma map_res_all:
  "(\<And>x. x \<in> set xs \<Longrightarrow> f x = Inr (g x)) \<Longrightarrow> map_res f xs = Inr (map g xs)"
  by (induction xs) simp_all


























text \<open>
  Three more exports. A vehicle with an attribute \<^verbatim>\<open>Owners\<close> of its own: the holder
  column stays where that attribute was and holds the names of the holders. A second
  account with an attribute that the first one lacks: the writer raises
  \<^verbatim>\<open>ValueError\<close> at that record, the file of the category ends with the records
  before it, and the categories that follow get no file. An account that is a list of
  pairs and no dict: \<^verbatim>\<open>dict\<close> reads the pairs, \<^verbatim>\<open>1\<close> and \<^verbatim>\<open>True\<close> being the
  same key.
\<close>

lemma export_attribute_named_like_holder_column:
  "export_to_csv
     (set_data (store_with [JObj sample_member] []) ''vehicle_details''
        (JArr [JObj sample_vehicle])) True
     = ([\<lparr>name = ''family_info.csv'',
           header = map JStr [''Name'', ''Aadhar No.'', ''PAN no'', ''Voter id no''],
           rows = [[JStr ''Ravi'', JStr [], JStr [], JStr []]]\<rparr>,
         \<lparr>name = ''vehicle_details.csv'',
           header = map JStr [''Owners'', ''VEHICLE MAKE''],
           rows = [[JStr ''Ravi'', JStr ''Maruti'']]\<rparr>],
        None)"
  by code_simp

lemma export_stops_at_unknown_attribute:
  "export_to_csv
     (set_data (store_with [JObj sample_member] [JObj sample_entered, sample_account])
        ''vehicle_details'' (JArr [JObj sample_vehicle])) True
     = ([\<lparr>name = ''family_info.csv'',
           header = map JStr [''Name'', ''Aadhar No.'', ''PAN no'', ''Voter id no''],
           rows = [[JStr ''Ravi'', JStr [], JStr [], JStr []]]\<rparr>,
         \<lparr>name = ''bank_accounts.csv'',
           header = map JStr [''Account Type'', ''BANK NAME'', ''ACCOUNT NO'', ''Holders''],
           rows = [[JStr ''Savings'', JStr ''SBI'', JStr ''1'', JStr ''?, Ravi'']]\<rparr>],
        Some ValueError)"
  by code_simp

lemma export_record_of_pairs:
  "export_to_csv
     (store_with [JObj sample_member]
        [JArr [JArr [JNum 1, JStr ''SBI''], JStr ''ab'', JArr [JBool True, JStr ''HDFC'']]]) True
     = ([\<lparr>name = ''family_info.csv'',
           header = map JStr [''Name'', ''Aadhar No.'', ''PAN no'', ''Voter id no''],
           rows = [[JStr ''Ravi'', JStr [], JStr [], JStr []]]\<rparr>,
         \<lparr>name = ''bank_accounts.csv'',
           header = [JNum 1, JStr ''a''],
           rows = [[JStr ''HDFC'', JStr ''b'']]\<rparr>],
        None)"
  by code_simp



section \<open>Deleting a member who is named twice\<close>

lemma strip_holder_basic_first:
  assumes "map_of e ''holders'' = Some (JArr xs)"
  shows "strip_holder_basic i (JObj e) =
           Inr (JObj (if JStr i \<in> set xs
                      then dict_set e ''holders'' (JArr (remove1 (JStr i) xs)) else e))"
proof -
  from assms have "''holders'' \<in> fst ` set e" by (metis map_of_eq_None_iff option.distinct(1))
  with assms show ?thesis
    by (simp add: strip_holder_basic_def list_remove_def set_item_def)
qed

lemma strip_holder_ext_first:
  assumes "map_of e ''holders'' = Some (JArr xs)"
  shows "strip_holder_ext i (JObj e) =
           Inr (JObj (if JStr i \<in> set xs
                      then dict_set e ''holders'' (JArr (remove1 (JStr i) xs)) else e))"
  using assms by (simp add: strip_holder_ext_def list_remove_def set_item_def)

text \<open>In the basic variant, when no holders list of the store names anybody twice, the
  deletion leaves no record of any section naming the deleted identifier.\<close>

lemma strip_holder_basic_single:
  assumes "\<forall>v. map_of e ''holders'' = Some v \<longrightarrow> (\<exists>xs. v = JArr xs \<and> distinct xs)"
  shows "\<exists>e'. strip_holder_basic i (JObj e) = Inr (JObj e')
           \<and> map_of e' ''id'' = map_of e ''id''
           \<and> (\<forall>v. map_of e' ''holders'' = Some v \<longrightarrow> (\<exists>xs. v = JArr xs \<and> JStr i \<notin> set xs))"
proof (cases "map_of e ''holders''")
  case None
  then have "''holders'' \<notin> fst ` set e" by (simp add: map_of_eq_None_iff)
  with None show ?thesis by (simp add: strip_holder_basic_def)
next
  case (Some v)
  with assms obtain xs where xs: "v = JArr xs" "distinct xs" by blast
  from Some xs strip_holder_basic_first[of e xs i]
  have r: "strip_holder_basic i (JObj e) =
           Inr (JObj (if JStr i \<in> set xs
                      then dict_set e ''holders'' (JArr (remove1 (JStr i) xs)) else e))"
    by simp
  show ?thesis
  proof (cases "JStr i \<in> set xs")
    case True
    with r xs show ?thesis by (simp add: map_of_dict_set)
  next
    case False
    with r Some xs show ?thesis by simp
  qed
qed

lemma strip_records_basic:
  assumes "\<forall>e\<in>set recs. \<forall>v. map_of e ''holders'' = Some v \<longrightarrow> (\<exists>xs. v = JArr xs \<and> distinct xs)"
  shows "\<exists>recs'. map_res (strip_holder_basic i) (map JObj recs) = Inr (map JObj recs')
           \<and> (\<forall>e\<in>set recs'. \<forall>v. map_of e ''holders'' = Some v
                  \<longrightarrow> (\<exists>xs. v = JArr xs \<and> JStr i \<notin> set xs))"
  using assms
proof (induction recs)
  case Nil
  then show ?case by simp
next
  case (Cons e recs)
  from Cons.prems have "\<forall>v. map_of e ''holders'' = Some v \<longrightarrow> (\<exists>xs. v = JArr xs \<and> distinct xs)"
    by simp
  from strip_holder_basic_single[OF this, of i] obtain e' where
    e': "strip_holder_basic i (JObj e) = Inr (JObj e')" "map_of e' ''id'' = map_of e ''id''"
    "\<forall>v. map_of e' ''holders'' = Some v \<longrightarrow> (\<exists>xs. v = JArr xs \<and> JStr i \<notin> set xs)" by blast
  from Cons obtain recs' where
    r: "map_res (strip_holder_basic i) (map JObj recs) = Inr (map JObj recs')"
    "\<forall>e\<in>set recs'. \<forall>v. map_of e ''holders'' = Some v
                  \<longrightarrow> (\<exists>xs. v = JArr xs \<and> JStr i \<notin> set xs)" by auto
  show ?case
    by (rule exI[of _ "e' # recs'"]) (use e' r in simp)
qed

lemma strip_section_basic_cleans:
  assumes "single_holders content"
  shows "\<exists>content'. strip_section_basic i content = Inr content' \<and> cleaned i content'"
proof -
  from assms obtain c recs where c: "content = JObj c"
    "map_of c ''data'' = Some (JArr (map JObj recs))"
    "\<forall>e\<in>set recs. \<forall>v. map_of e ''holders'' = Some v \<longrightarrow> (\<exists>xs. v = JArr xs \<and> distinct xs)"
    unfolding single_holders_def by blast
  from strip_records_basic[OF c(3), of i] obtain recs' where
    r: "map_res (strip_holder_basic i) (map JObj recs) = Inr (map JObj recs')"
    "\<forall>e\<in>set recs'. \<forall>v. map_of e ''holders'' = Some v
                  \<longrightarrow> (\<exists>xs. v = JArr xs \<and> JStr i \<notin> set xs)" by blast
  from c(2) have din: "''data'' \<in> set (map fst c)"
    by (metis map_of_eq_None_iff option.distinct(1) set_map)
  let ?c' = "dict_set c ''data'' (JArr (map JObj recs'))"
  have run: "strip_section_basic i content = Inr (JObj ?c')"
    using din by (simp add: strip_section_basic_def c(1,2) strip_data_def r(1) set_item_def)
  have cl: "cleaned i (JObj ?c')"
    unfolding cleaned_def using r(2)
    by (intro exI[of _ ?c'] exI[of _ recs']) (simp add: map_of_dict_set)
  from run cl show ?thesis by blast
qed

lemma strip_sections_basic_clean:
  assumes "\<forall>p\<in>set d. single_holders (snd p)"
  shows "\<exists>d'. map_values_res (strip_section_basic i) d = Inr d' \<and> map fst d' = map fst d
           \<and> (\<forall>p\<in>set d'. cleaned i (snd p))"
  using assms
proof (induction d)
  case Nil
  then show ?case by simp
next
  case (Cons p d)
  then have "single_holders (snd p)" by simp
  from strip_section_basic_cleans[OF this, of i] obtain content' where
    c: "strip_section_basic i (snd p) = Inr content'" "cleaned i content'" by blast
  from Cons obtain d' where
    d: "map_values_res (strip_section_basic i) d = Inr d'" "map fst d' = map fst d"
    "\<forall>p\<in>set d'. cleaned i (snd p)" by auto
  show ?case
    by (rule exI[of _ "(fst p, content') # d'"]) (use c d in simp)
qed

lemma drop_by_id_dicts:
  "drop_by_id (map JObj ms) i = Inr (map JObj (filter (\<lambda>m. map_of m ''id'' \<noteq> Some (JStr i)) ms))"
proof (induction ms)
  case Nil
  then show ?case by simp
next
  case (Cons m ms)
  have "(case map_of m ''id'' of None \<Rightarrow> JNull | Some v \<Rightarrow> v) \<noteq> JStr i
          \<longleftrightarrow> map_of m ''id'' \<noteq> Some (JStr i)"
    by (cases "map_of m ''id''") auto
  with Cons show ?case by simp
qed

lemma set_dict_set: "set (dict_set d k v) \<subseteq> insert (k, v) (set d)"
  unfolding dict_set_def by (induction d) auto

lemma delete_member_basic_single_holders:
  assumes shape: "\<forall>p\<in>set sd. single_holders (snd p)"
    and found: "get_member_by_id (JObj sd) (JStr i) = Inr (Some m)"
  shows "\<exists>sd'. delete_member_from_button (JObj sd) (Some i) True = Inr (JObj sd')
           \<and> map fst sd' = map fst sd
           \<and> (\<forall>p\<in>set sd'. cleaned i (snd p))"
proof -
  from found obtain rs k where rs: "records_of (JObj sd) ''family_info'' = Inr rs"
    and k: "find_by_id rs (JStr i) = Inr (Some k)" and m: "m = rs ! k"
    by (auto simp: get_member_by_id_def bnd_eq_Inr)
  from find_by_id_SomeD[OF k] obtain e where kl: "k < length rs" and e: "rs ! k = JObj e"
    and ide: "map_of e ''id'' = Some (JStr i)" by blast
  from records_of_shape[OF rs kl e] obtain c where
    fam: "map_of sd ''family_info'' = Some (JObj c)" and dat: "map_of c ''data'' = Some (JArr rs)"
    by auto
  from fam have "(''family_info'', JObj c) \<in> set sd" by (rule map_of_SomeD)
  with shape have "single_holders (JObj c)" by fastforce
  with dat obtain ms where ms: "rs = map JObj ms"
    and ok: "\<forall>e\<in>set ms. \<forall>v. map_of e ''holders'' = Some v \<longrightarrow> (\<exists>xs. v = JArr xs \<and> distinct xs)"
    unfolding single_holders_def by auto
  let ?kept = "filter (\<lambda>m. map_of m ''id'' \<noteq> Some (JStr i)) ms"
  let ?c' = "dict_set c ''data'' (JArr (map JObj ?kept))"
  let ?sd1 = "dict_set sd ''family_info'' (JObj ?c')"
  have sd1: "set_data (JObj sd) ''family_info'' (JArr (map JObj ?kept)) = JObj ?sd1"
    by (simp add: set_data_def fam)
  have "\<forall>e\<in>set ?kept. \<forall>v. map_of e ''holders'' = Some v \<longrightarrow> (\<exists>xs. v = JArr xs \<and> distinct xs)"
  proof (intro ballI)
    fix e assume "e \<in> set ?kept"
    then have "e \<in> set ms" by simp
    with ok show "\<forall>v. map_of e ''holders'' = Some v \<longrightarrow> (\<exists>xs. v = JArr xs \<and> distinct xs)"
      by (rule bspec)
  qed
  then have "single_holders (JObj ?c')"
    unfolding single_holders_def
    by (intro exI[of _ ?c'] exI[of _ ?kept]) (simp add: map_of_dict_set)
  note sh' = this
  have shape1: "\<forall>p\<in>set ?sd1. single_holders (snd p)"
  proof (intro ballI)
    fix p assume "p \<in> set ?sd1"
    with set_dict_set[of sd "''family_info''" "JObj ?c'"]
    have "p = (''family_info'', JObj ?c') \<or> p \<in> set sd" by blast
    then show "single_holders (snd p)"
    proof
      assume "p = (''family_info'', JObj ?c')"
      with sh' show ?thesis by simp
    next
      assume "p \<in> set sd"
      with shape show ?thesis by (rule bspec)
    qed
  qed
  from strip_sections_basic_clean[OF shape1, of i] obtain sd' where
    r: "map_values_res (strip_section_basic i) ?sd1 = Inr sd'" "map fst sd' = map fst ?sd1"
    "\<forall>p\<in>set sd'. cleaned i (snd p)" by blast
  from fam have "''family_info'' \<in> set (map fst sd)"
    by (metis map_of_eq_None_iff option.distinct(1) set_map)
  then have keys: "map fst ?sd1 = map fst sd"
    by (simp add: dict_set_def update_keys)
  have ne: "e \<noteq> []" using ide by auto
  have "delete_member_from_button (JObj sd) (Some i) True = Inr (JObj sd')"
    using found m e ne rs ms
    by (simp add: delete_member_from_button_def delete_cascade_def drop_by_id_dicts sd1 r(1))
  with r(2,3) keys show ?thesis by auto
qed

text \<open>
  C1 (failing input): deleting a member is to remove the identifier from the holders of
  every asset, so that no asset is held by it afterwards. Both variants call
  \<^verbatim>\<open>asset['holders'].remove(member_id)\<close> once per asset, and \<^verbatim>\<open>list.remove\<close> takes
  out the first occurrence only (\<open>strip_holder_basic_first\<close>,
  \<open>strip_holder_ext_first\<close>). A holders list naming the member
  twice, which a file can hold and both loads adopt as it is, still names the member after
  the deletion: the account is among the records whose holders contain the deleted
  identifier. (The view of a member's assets shows nothing for it, but only because it
  looks the member up first and the member is gone.)
\<close>

theorem delete_member_keeps_repeated_holder:
  "delete_member_from_button (store_with [JObj sample_member] [JObj sample_joint]) (Some ''m2'') True
     = Inr (store_with [] [JObj sample_joint_after])
   \<and> delete_member (store_with [JObj sample_member] [JObj sample_joint]) (Some ''m2'') True
     = Inr (store_with [] [JObj sample_joint_after])
   \<and> held_assets ''m2'' [JObj sample_joint_after] = Inr [JObj sample_joint_after]
   \<and> section_assets ''m2'' (items (store_with [] [JObj sample_joint_after]))
     = Inr [(''bank_accounts'', JObj sample_joint_after)]
   \<and> display_member_assets (store_with [] [JObj sample_joint_after]) (Some ''m2'') = Inr []
   \<and> section_assets_basic TypeError ''m2'' (items (store_with [] [JObj sample_joint_after]))
     = Inr [(''bank_accounts'', JObj sample_joint_after)]
   \<and> display_member_assets_basic TypeError (store_with [] [JObj sample_joint_after]) (Some ''m2'')
     = Inr []"
  by code_simp

section \<open>Loading a document of another format\<close>

lemma load_ext_failure_resets:
  "fst (load_data_from_file_ext refresh gen n doc) \<noteq> None
     \<Longrightarrow> snd (load_data_from_file_ext refresh gen n doc) = initialize_data_structures"
  by (auto simp: load_data_from_file_ext_def split: sum.splits option.splits)

lemma load_ext_unrecognized:
  assumes "is_current_format doc \<noteq> Inr True" "is_legacy_format doc \<noteq> Inr True"
  shows "\<exists>e. load_data_from_file_ext refresh gen n doc = (Some e, initialize_data_structures)"
proof -
  from assms have "\<exists>e. adopt_ext gen n doc = Inl e"
    unfolding adopt_ext_def
    by (cases "is_current_format doc"; cases "is_legacy_format doc") auto
  then show ?thesis by (auto simp: load_data_from_file_ext_def)
qed

lemma load_ext_neither:
  assumes "is_current_format doc = Inr False" "is_legacy_format doc = Inr False"
  shows "load_data_from_file_ext refresh gen n doc = (Some ValueError, initialize_data_structures)"
  using assms by (simp add: load_data_from_file_ext_def adopt_ext_def)

lemma load_basic_unrecognized:
  assumes "is_current_format doc \<noteq> Inr True"
  shows "\<exists>e. load_data_from_file_basic refresh confirm store doc = (Some e, new_file store confirm)"
  using assms
  by (cases "is_current_format doc") (auto simp: load_data_from_file_basic_def)

lemma load_basic_confirmed_resets:
  "fst (load_data_from_file_basic refresh True store doc) \<noteq> None
     \<Longrightarrow> snd (load_data_from_file_basic refresh True store doc) = initialize_data_structures"
  by (auto simp: load_data_from_file_basic_def new_file_def split: sum.splits option.splits if_splits)

text \<open>
  C6 (failing input): a document of neither format makes the load fail and leaves the
  empty store. The extended variant does so (\<open>load_ext_unrecognized\<close>,
  \<open>load_ext_neither\<close>): its handler assigns the empty store. The handler of the basic
  variant calls \<^verbatim>\<open>new_file\<close> instead, which asks for a confirmation first and
  replaces the store only on yes (\<open>load_basic_unrecognized\<close>). With the answer no, the
  store after the failed load of \<^verbatim>\<open>{"foo": 1}\<close> is the store before it, here a store
  with a member.
\<close>

theorem basic_load_keeps_store_when_declined:
  "is_current_format (JObj [(''foo'', JNum 1)]) = Inr False
   \<and> is_legacy_format (JObj [(''foo'', JNum 1)]) = Inr False
   \<and> load_data_from_file_basic Map.empty False (store_with [JObj sample_member] [])
        (JObj [(''foo'', JNum 1)])
     = (Some ValueError, store_with [JObj sample_member] [])
   \<and> load_data_from_file_ext Map.empty sample_ids 0 (JObj [(''foo'', JNum 1)])
     = (Some ValueError, initialize_data_structures)"
  by code_simp

section \<open>The two load operations compared\<close>

lemma current_format_is_dict:
  "is_current_format doc = Inr True \<Longrightarrow> \<exists>d. doc = JObj d"
  by (cases doc) (auto simp: is_current_format_def bnd_eq_Inr split: if_splits)

lemma load_basic_accepts_iff:
  "fst (load_data_from_file_basic refresh confirm store doc) = None \<longleftrightarrow>
     is_current_format doc = Inr True
     \<and> (\<exists>d. doc = JObj d \<and> refresh (JObj (dict_update (items initialize_data_structures) d)) = None)"
proof (cases "is_current_format doc = Inr True")
  case True
  then obtain d where d: "doc = JObj d" by (auto dest: current_format_is_dict)
  obtain init where init: "initialize_data_structures = JObj init"
    by (simp add: initialize_data_structures_def)
  from True d show ?thesis
    by (auto simp: load_data_from_file_basic_def py_update_def init items_def split: option.splits)
next
  case False
  then show ?thesis
    by (cases "is_current_format doc") (auto simp: load_data_from_file_basic_def)
qed

lemma load_ext_legacy_migrates:
  assumes "is_current_format doc = Inr False" "is_legacy_format doc = Inr True"
  shows "adopt_ext gen n doc = bnd (transform_old_data_format gen n doc) (\<lambda>st. Inr (new_store st))"
  using assms by (simp add: adopt_ext_def)

text \<open>
  C10 (failing input): the basic load accepts a document exactly when it passes the test
  of the current format (and the views then raise nothing, \<open>load_basic_accepts_iff\<close>);
  it has no branch for the older format, which the extended load migrates
  (\<open>load_ext_legacy_migrates\<close>), and rejects such a document with
  \<^verbatim>\<open>ValueError("Unrecognized data format.")\<close>. The store is reset after the rejection
  only when the user confirms the question of \<^verbatim>\<open>new_file\<close>; with the answer no it is
  left as it was before the load.
\<close>

theorem basic_load_rejects_legacy_without_reset:
  "is_current_format (JObj sample_legacy) = Inr False
   \<and> is_legacy_format (JObj sample_legacy) = Inr True
   \<and> fst (load_data_from_file_ext Map.empty sample_ids 0 (JObj sample_legacy)) = None
   \<and> load_data_from_file_basic Map.empty True (store_with [JObj sample_member] [])
        (JObj sample_legacy)
     = (Some ValueError, initialize_data_structures)
   \<and> load_data_from_file_basic Map.empty False (store_with [JObj sample_member] [])
        (JObj sample_legacy)
     = (Some ValueError, store_with [JObj sample_member] [])"
  by code_simp

end
